theory Spec2Isabelle
  imports Complex_Main
begin

section \<open>Data model\<close>

text \<open>
  The module \<open>csaps/_sspndg.py\<close> works on Python objects and NumPy arrays. Only the
  structure of the arrays (their shape and the order of their entries) matters to it:
  all arithmetic on the entries happens inside the 1-D solver of \<open>_sspumv.py\<close>.
  A float64 entry is a finite real, an infinity or NaN.
\<close>

datatype float64 = Finite real | PosInf | NegInf | NaN

fun isfinite :: "float64 \<Rightarrow> bool" where
  "isfinite (Finite r) = True"
| "isfinite PosInf = False"
| "isfinite NegInf = False"
| "isfinite NaN = False"

text \<open>
  A NumPy array of dtype float64: its \<open>shape\<close> and its entries, listed in Fortran
  (column-major) order, the order every \<open>reshape(..., order='F')\<close> of the module uses.
  Python integers are unbounded, so the shape is a list of \<open>int\<close>.
\<close>

record ndarray =
  shape :: "int list"
  data :: "float64 list"

definition andim :: "ndarray \<Rightarrow> nat" where
  "andim a = length (shape a)"

definition asize :: "ndarray \<Rightarrow> int" where
  "asize a = prod_list (shape a)"

text \<open>Every array NumPy builds has non-negative extents and one entry per index.\<close>

definition wf_ndarray :: "ndarray \<Rightarrow> bool" where
  "wf_ndarray a \<longleftrightarrow> list_all (\<lambda>d. 0 \<le> d) (shape a) \<and> int (length (data a)) = asize a"

text \<open>
  The Python values the functions receive: \<open>None\<close>, a number (coerced to float64 by
  \<open>np.array(..., dtype=np.float64)\<close> and by \<open>float\<close>), a list, a tuple, or an array.
\<close>

datatype pyobj =
    PyNone
  | PyFloat float64
  | PyList "pyobj list"
  | PyTuple "pyobj list"
  | PyArray ndarray

datatype error = TypeError | ValueError | ZeroDivisionError | IndexError | SolverError

text \<open>\<open>isinstance(x, collections.abc.Sequence)\<close>: lists and tuples are sequences,
  \<open>None\<close>, numbers and NumPy arrays are not.\<close>

fun is_sequence :: "pyobj \<Rightarrow> bool" where
  "is_sequence (PyList xs) = True"
| "is_sequence (PyTuple xs) = True"
| "is_sequence _ = False"

text \<open>\<open>list(x)\<close> for a sequence \<open>x\<close>.\<close>

fun items :: "pyobj \<Rightarrow> pyobj list" where
  "items (PyList xs) = xs"
| "items (PyTuple xs) = xs"
| "items _ = []"

text \<open>
  \<open>not x\<close>: \<open>None\<close>, zero and the empty sequences are falsy; NaN is truthy. An array
  with one entry has the truth value of that entry, an empty array is falsy (NumPy 1,
  with a deprecation warning), and an array with more entries raises \<open>ValueError\<close>.
\<close>

fun py_not :: "pyobj \<Rightarrow> error + bool" where
  "py_not PyNone = Inr True"
| "py_not (PyFloat f) = Inr (f = Finite 0)"
| "py_not (PyList xs) = Inr (xs = [])"
| "py_not (PyTuple xs) = Inr (xs = [])"
| "py_not (PyArray a) =
     (if asize a = 0 then Inr True
      else if asize a = 1 then Inr (data a = [Finite 0])
      else Inl ValueError)"

text \<open>\<open>float(x)\<close>.\<close>

fun py_float :: "pyobj \<Rightarrow> error + float64" where
  "py_float (PyFloat f) = Inr f"
| "py_float (PyArray a) =
     (case data a of [f] \<Rightarrow> Inr f | _ \<Rightarrow> Inl TypeError)"
| "py_float _ = Inl TypeError"

text \<open>Sequencing of computations that may raise: the first error wins.\<close>

fun sequence_e :: "(error + 'a) list \<Rightarrow> error + 'a list" where
  "sequence_e [] = Inr []"
| "sequence_e (r # rs) =
     (case r of
        Inl e \<Rightarrow> Inl e
      | Inr x \<Rightarrow> (case sequence_e rs of Inl e \<Rightarrow> Inl e | Inr xs \<Rightarrow> Inr (x # xs)))"

text \<open>
  Stacking equally shaped arrays along a new leading axis, as \<open>np.array\<close> does with the
  elements of a list: with column-major entries the leading index runs fastest, so the
  entries of the children are interleaved. Children of different shapes are ragged and
  raise \<open>ValueError\<close> under a float64 dtype; an empty list gives shape \<open>(0,)\<close>.
\<close>

fun stack :: "ndarray list \<Rightarrow> error + ndarray" where
  "stack [] = Inr \<lparr>shape = [0], data = []\<rparr>"
| "stack (c # cs) =
     (if list_all (\<lambda>d. shape d = shape c) cs
      then Inr \<lparr>shape = int (length (c # cs)) # shape c,
                data = concat (transpose (map data (c # cs)))\<rparr>
      else Inl ValueError)"

text \<open>\<open>np.array(x, dtype=np.float64)\<close>; \<open>None\<close> is coerced to NaN.\<close>

fun np_array :: "pyobj \<Rightarrow> error + ndarray" where
  "np_array PyNone = Inr \<lparr>shape = [], data = [NaN]\<rparr>"
| "np_array (PyFloat f) = Inr \<lparr>shape = [], data = [f]\<rparr>"
| "np_array (PyArray a) = Inr a"
| "np_array (PyList xs) =
     (case sequence_e (map np_array xs) of Inl e \<Rightarrow> Inl e | Inr cs \<Rightarrow> stack cs)"
| "np_array (PyTuple xs) =
     (case sequence_e (map np_array xs) of Inl e \<Rightarrow> Inl e | Inr cs \<Rightarrow> stack cs)"

section \<open>The axis validator\<close>

text \<open>
  \<open>ndgrid_prepare_data_sites(data, name)\<close>. The argument \<open>name\<close> only appears in the
  messages of the exceptions, which the model does not carry. The loop over
  \<open>enumerate(data)\<close> converts the elements in order and stops at the first one that
  raises; \<open>data = list(data)\<close> is a fresh list, so the assignments \<open>data[i] = di\<close>
  fill the result and leave the caller's sequence as it was.
\<close>

fun prepare_sites_loop :: "pyobj list \<Rightarrow> error + ndarray list" where
  "prepare_sites_loop [] = Inr []"
| "prepare_sites_loop (di # rest) =
     (case np_array di of
        Inl e \<Rightarrow> Inl e
      | Inr a \<Rightarrow>
          if andim a > 1 then Inl ValueError
          else if asize a < 2 then Inl ValueError
          else (case prepare_sites_loop rest of
                  Inl e \<Rightarrow> Inl e
                | Inr r \<Rightarrow> Inr (a # r)))"

definition ndgrid_prepare_data_sites :: "pyobj \<Rightarrow> error + ndarray list" where
  "ndgrid_prepare_data_sites d =
     (if \<not> is_sequence d then Inl TypeError
      else prepare_sites_loop (items d))"

section \<open>NumPy operations used by the module\<close>

fun bind_e :: "error + 'a \<Rightarrow> ('a \<Rightarrow> error + 'b) \<Rightarrow> error + 'b" where
  "bind_e (Inl e) f = Inl e"
| "bind_e (Inr x) f = f x"

text \<open>\<open>xs[i]\<close> for an index \<open>i \<ge> 0\<close>: out of range raises \<open>IndexError\<close>.\<close>

definition getitem :: "'a list \<Rightarrow> nat \<Rightarrow> error + 'a" where
  "getitem xs i = (if i < length xs then Inr (xs ! i) else Inl IndexError)"

text \<open>\<open>len(a)\<close> of an array is its leading extent; a 0-d array has no length.\<close>

definition alen :: "ndarray \<Rightarrow> error + int" where
  "alen a = (case shape a of [] \<Rightarrow> Inl TypeError | n # ds \<Rightarrow> Inr n)"

text \<open>
  \<open>a.reshape(newshape, order='F')\<close>. The entries keep their column-major order, so
  only the shape changes. A negative entry of \<open>newshape\<close> (documented as \<open>-1\<close>) stands for
  the one extent NumPy infers from the size; more than one, or a size that does not
  fit, raises \<open>ValueError\<close>.
\<close>

definition reshape_F :: "ndarray \<Rightarrow> int list \<Rightarrow> error + ndarray" where
  "reshape_F a newshape =
     (let unknown = filter (\<lambda>d. d < 0) newshape;
          known = prod_list (filter (\<lambda>d. 0 \<le> d) newshape)
      in if length unknown > 1 then Inl ValueError
         else if length unknown = 1 then
           (if known = 0 \<or> asize a mod known \<noteq> 0 then Inl ValueError
            else Inr \<lparr>shape = map (\<lambda>d. if d < 0 then asize a div known else d) newshape,
                      data = data a\<rparr>)
         else if known \<noteq> asize a then Inl ValueError
         else Inr \<lparr>shape = newshape, data = data a\<rparr>)"

text \<open>Column-major position of a multi-index, and the multi-index of a position.\<close>

fun ravel_F :: "int list \<Rightarrow> nat list \<Rightarrow> nat" where
  "ravel_F (d # ds) (i # is) = i + nat d * ravel_F ds is"
| "ravel_F _ _ = 0"

fun unravel_F :: "int list \<Rightarrow> nat \<Rightarrow> nat list" where
  "unravel_F [] j = []"
| "unravel_F (d # ds) j = (j mod nat d) # unravel_F ds (j div nat d)"

definition index_of :: "nat list \<Rightarrow> nat \<Rightarrow> nat" where
  "index_of axes d = length (takeWhile (\<lambda>x. x \<noteq> d) axes)"

text \<open>
  \<open>a.transpose(axes)\<close>: \<open>axes\<close> must be a permutation of \<open>range(a.ndim)\<close>; extent
  \<open>k\<close> of the result is extent \<open>axes[k]\<close> of \<open>a\<close>, and the entry at index \<open>J\<close> of the
  result is the entry of \<open>a\<close> at the index \<open>I\<close> with \<open>I[axes[k]] = J[k]\<close>.
\<close>

definition transpose_nd :: "ndarray \<Rightarrow> nat list \<Rightarrow> error + ndarray" where
  "transpose_nd a axes =
     (if sort axes \<noteq> [0..<andim a] then Inl ValueError
      else
        let sh = map (\<lambda>k. shape a ! k) axes
        in Inr \<lparr>shape = sh,
                 data = map (\<lambda>j. data a !
                               ravel_F (shape a)
                                 (map (\<lambda>d. unravel_F sh j ! index_of axes d) [0..<andim a]))
                          [0..<nat (prod_list sh)]\<rparr>)"

section \<open>The 1-D smoothing spline (\<open>_sspumv.py\<close>)\<close>

text \<open>
  The classes \<open>CubicSmoothingSpline\<close> and \<open>SplinePPForm\<close> live in \<open>_sspumv.py\<close>. The
  grid engine reads \<open>s.smooth\<close>, \<open>s.spline.pieces\<close>, \<open>s.spline.order\<close> and
  \<open>s.spline.coeffs\<close> of a fitted 1-D spline, and evaluates a
  \<open>SplinePPForm(breaks, coeffs, ndim=..., shape=...)\<close>. Both are parameters of the
  model: a \<open>solver\<close> stands for the call
  \<open>CubicSmoothingSpline(xdata, ydata, weights=..., smooth=...)\<close> and an \<open>evaluator\<close> for
  \<open>SplinePPForm(breaks, coeffs, ndim=n, shape=sh).evaluate(xi)\<close>; either may raise.
\<close>

record SplinePPForm =
  breaks1 :: ndarray
  coeffs1 :: ndarray
  pieces1 :: int
  order1 :: int

record CubicSmoothingSpline =
  smooth1 :: float64
  spline1 :: SplinePPForm

type_synonym solver =
  "ndarray \<Rightarrow> ndarray \<Rightarrow> ndarray option \<Rightarrow> pyobj \<Rightarrow> error + CubicSmoothingSpline"

type_synonym evaluator =
  "ndarray \<Rightarrow> ndarray \<Rightarrow> int \<Rightarrow> int list \<Rightarrow> ndarray \<Rightarrow> error + ndarray"

section \<open>\<open>NdGridSplinePPForm\<close>\<close>

record NdGridSplinePPForm =
  breaks :: "ndarray list"
  coeffs :: ndarray
  pieces :: "int list"
  order :: "int list"
  ndim :: nat

text \<open>\<open>tuple(s // p for s, p in zip(shape, pieces))\<close>; \<open>//\<close> is floor division and
  raises on a zero divisor.\<close>

fun floordiv_zip :: "int list \<Rightarrow> int list \<Rightarrow> error + int list" where
  "floordiv_zip (s # ss) (p # ps) =
     (if p = 0 then Inl ZeroDivisionError
      else bind_e (floordiv_zip ss ps) (\<lambda>r. Inr (s div p # r)))"
| "floordiv_zip _ _ = Inr []"

text \<open>\<open>NdGridSplinePPForm.__init__(breaks, coeffs)\<close>.\<close>

definition NdGridSplinePPForm_init ::
    "ndarray list \<Rightarrow> ndarray \<Rightarrow> error + NdGridSplinePPForm" where
  "NdGridSplinePPForm_init bs cs =
     (let ps = map (\<lambda>x. asize x - 1) bs
      in bind_e (floordiv_zip (tl (shape cs)) ps) (\<lambda>os.
           Inr \<lparr>breaks = bs, coeffs = cs, pieces = ps, order = os, ndim = length bs\<rparr>))"

text \<open>
  The loop of \<open>NdGridSplinePPForm.evaluate\<close> over \<open>range(self.ndim - 1, -1, -1)\<close>, given
  as the list of the axes still to visit. It reads the attributes of \<open>self\<close> and
  rebinds the locals \<open>yi\<close> and \<open>sizey\<close>.
\<close>

fun evaluate_loop ::
    "evaluator \<Rightarrow> NdGridSplinePPForm \<Rightarrow> ndarray list \<Rightarrow> int list \<Rightarrow> nat list
       \<Rightarrow> ndarray \<times> int list \<Rightarrow> error + ndarray \<times> int list" where
  "evaluate_loop ev self xi nsize [] (yi, sizey) = Inr (yi, sizey)"
| "evaluate_loop ev self xi nsize (i # axes) (yi, sizey) =
     (let ndim' = prod_list (take (ndim self) sizey)
      in bind_e (getitem (pieces self) i) (\<lambda>p.
         bind_e (getitem (order self) i) (\<lambda>ordr.
         bind_e (reshape_F yi [ndim' * p, ordr]) (\<lambda>coeffs'.
         bind_e (getitem (breaks self) i) (\<lambda>b.
         bind_e (getitem xi i) (\<lambda>x.
         bind_e (ev b coeffs' ndim' [ndim', asize x] x) (\<lambda>yi1.
         bind_e (getitem nsize i) (\<lambda>m.
         bind_e (reshape_F yi1 (take (ndim self) sizey @ [m])) (\<lambda>yi2.
         bind_e (transpose_nd yi2 (0 # ndim self # [1..<ndim self])) (\<lambda>yi3.
           evaluate_loop ev self xi nsize axes (yi3, shape yi3)))))))))))"

text \<open>
  \<open>NdGridSplinePPForm.evaluate(self, xi)\<close> as a method: it returns the result (or the
  exception) together with the object after the call. No statement of the method
  assigns to an attribute of \<open>self\<close>, and \<open>self.coeffs.copy()\<close> is a fresh array: on
  values it has the entries of \<open>self.coeffs\<close>. What the call writes in memory is the
  subject of \<open>evaluate_h\<close> below.
\<close>

definition evaluate ::
    "evaluator \<Rightarrow> NdGridSplinePPForm \<Rightarrow> ndarray list
       \<Rightarrow> (error + ndarray) \<times> NdGridSplinePPForm" where
  "evaluate ev self xi =
     (let yi = coeffs self;
          sizey = shape yi;
          nsize = map asize xi
      in (bind_e (evaluate_loop ev self xi nsize (rev [0..<ndim self]) (yi, sizey))
            (\<lambda>(yi', sizey'). reshape_F yi' nsize),
          self))"

section \<open>\<open>NdGridCubicSmoothingSpline\<close>\<close>

record NdGridCubicSmoothingSpline =
  xdata :: "ndarray list"
  ydata :: ndarray
  weights :: "ndarray option list"
  ndim_of :: nat
  spline :: NdGridSplinePPForm
  smooth :: "float64 list"

text \<open>\<open>for yd, xs in zip(ydata.shape, map(len, xdata)): if yd != xs: raise ValueError\<close>.\<close>

fun check_ydata_sizes :: "int list \<Rightarrow> ndarray list \<Rightarrow> error + unit" where
  "check_ydata_sizes (yd # yds) (x # xs) =
     bind_e (alen x) (\<lambda>n.
       if yd \<noteq> n then Inl ValueError else check_ydata_sizes yds xs)"
| "check_ydata_sizes _ _ = Inr ()"

text \<open>\<open>for w, x in zip(weights, xdata): if w is not None: if w.size != x.size: raise\<close>.\<close>

fun check_weights_sizes :: "ndarray option list \<Rightarrow> ndarray list \<Rightarrow> error + unit" where
  "check_weights_sizes (w # ws) (x # xs) =
     (case w of
        None \<Rightarrow> check_weights_sizes ws xs
      | Some w' \<Rightarrow>
          if asize w' \<noteq> asize x then Inl ValueError else check_weights_sizes ws xs)"
| "check_weights_sizes _ _ = Inr ()"

text \<open>
  \<open>NdGridCubicSmoothingSpline._prepare_data(xdata, ydata, weights, smooth)\<close>. \<open>ydata\<close> is
  a NumPy array (the method reads \<open>ydata.ndim\<close> and \<open>ydata.shape\<close>).
\<close>

definition prepare_data ::
    "pyobj \<Rightarrow> ndarray \<Rightarrow> pyobj \<Rightarrow> pyobj
       \<Rightarrow> error + ndarray list \<times> ndarray \<times> ndarray option list \<times> pyobj list" where
  "prepare_data xd yd ws sm =
     bind_e (ndgrid_prepare_data_sites xd) (\<lambda>xd'.
       let data_ndim = length xd'
       in if andim yd \<noteq> data_ndim then Inl ValueError
          else
         bind_e (check_ydata_sizes (shape yd) xd') (\<lambda>u.
         bind_e (py_not ws) (\<lambda>no_weights.
         bind_e (if no_weights then Inr (replicate data_ndim None)
                 else bind_e (ndgrid_prepare_data_sites ws) (\<lambda>r. Inr (map Some r))) (\<lambda>ws'.
           if length ws' \<noteq> data_ndim then Inl ValueError
           else
         bind_e (check_weights_sizes ws' xd') (\<lambda>u.
         bind_e (py_not sm) (\<lambda>no_smooth.
           let sm1 = (if no_smooth then PyList (replicate data_ndim PyNone) else sm)
           in
         bind_e (if \<not> is_sequence sm1
                 then bind_e (py_float sm1) (\<lambda>f. Inr (replicate data_ndim (PyFloat f)))
                 else Inr (items sm1)) (\<lambda>sm'.
           if length sm' \<noteq> data_ndim then Inl ValueError
           else Inr (xd', yd, ws', sm'))))))))"

text \<open>
  The loop of \<open>_make_spline\<close> over \<open>range(self._ndim - 1, -1, -1)\<close>. The locals are
  \<open>sizey\<close>, \<open>ydata\<close> and \<open>_smooth\<close>; \<open>sizey\<close> starts as \<open>[1] + list(shape)\<close> and is only
  replaced by a shape of the same length, so \<open>sizey[-1]\<close> and \<open>sizey[:-1]\<close> exist.
\<close>

fun make_spline_loop ::
    "solver \<Rightarrow> ndarray list \<Rightarrow> ndarray option list \<Rightarrow> nat \<Rightarrow> pyobj list \<Rightarrow> nat list
       \<Rightarrow> int list \<times> ndarray \<times> float64 list
       \<Rightarrow> error + int list \<times> ndarray \<times> float64 list" where
  "make_spline_loop fit xd ws n sm [] st = Inr st"
| "make_spline_loop fit xd ws n sm (i # axes) (sizey, yd, smooth') =
     bind_e (reshape_F yd [prod_list (butlast sizey), last sizey]) (\<lambda>ydata_i.
     bind_e (getitem xd i) (\<lambda>x.
     bind_e (getitem ws i) (\<lambda>w.
     bind_e (getitem sm i) (\<lambda>smooth_i.
     bind_e (fit x ydata_i w smooth_i) (\<lambda>s.
       let smooth'' = smooth' @ [smooth1 s];
           sizey' = butlast sizey @ [pieces1 (spline1 s) * order1 (spline1 s)]
       in
     bind_e (reshape_F (coeffs1 (spline1 s)) sizey') (\<lambda>yd'.
       if n > 1 then
         bind_e (transpose_nd yd' (0 # n # [1..<n])) (\<lambda>yd''.
           make_spline_loop fit xd ws n sm axes (shape yd'', yd'', smooth''))
       else make_spline_loop fit xd ws n sm axes (sizey', yd', smooth'')))))))"

text \<open>\<open>NdGridCubicSmoothingSpline._make_spline(self, smooth)\<close>, reading \<open>self._xdata\<close>,
  \<open>self._ydata\<close>, \<open>self._weights\<close> and \<open>self._ndim\<close>.\<close>

definition make_spline ::
    "solver \<Rightarrow> ndarray list \<Rightarrow> ndarray \<Rightarrow> ndarray option list \<Rightarrow> nat \<Rightarrow> pyobj list
       \<Rightarrow> error + NdGridSplinePPForm \<times> float64 list" where
  "make_spline fit xd yd ws n sm =
     (let sizey = 1 # shape yd
      in bind_e (reshape_F yd sizey) (\<lambda>yd0.
         bind_e (make_spline_loop fit xd ws n sm (rev [0..<n]) (sizey, yd0, [])) (\<lambda>(sizey', yd', smooth').
         bind_e (NdGridSplinePPForm_init xd yd') (\<lambda>form.
           Inr (form, smooth')))))"

text \<open>\<open>NdGridCubicSmoothingSpline.__init__(xdata, ydata, weights, smooth)\<close>.\<close>

definition NdGridCubicSmoothingSpline_init ::
    "solver \<Rightarrow> pyobj \<Rightarrow> ndarray \<Rightarrow> pyobj \<Rightarrow> pyobj \<Rightarrow> error + NdGridCubicSmoothingSpline" where
  "NdGridCubicSmoothingSpline_init fit xd yd ws sm =
     bind_e (prepare_data xd yd ws sm) (\<lambda>(xd', yd', ws', sm').
       let n = length xd'
       in bind_e (make_spline fit xd' yd' ws' n sm') (\<lambda>(form, smooth').
            Inr \<lparr>xdata = xd', ydata = yd', weights = ws', ndim_of = n,
                  spline = form, smooth = smooth'\<rparr>))"

text \<open>\<open>NdGridCubicSmoothingSpline.__call__(self, xi)\<close>.\<close>

definition NdGridCubicSmoothingSpline_call ::
    "evaluator \<Rightarrow> NdGridCubicSmoothingSpline \<Rightarrow> pyobj \<Rightarrow> error + ndarray" where
  "NdGridCubicSmoothingSpline_call ev self xi =
     bind_e (ndgrid_prepare_data_sites xi) (\<lambda>xi'.
       if length xi' \<noteq> ndim_of self then Inl ValueError
       else fst (evaluate ev (spline self) xi'))"

section \<open>The contract of the 1-D collaborator, and a stand-in for it\<close>

text \<open>
  Modelled from the spec: the 1-D solver of \<open>_sspumv.py\<close> is not part of the module.
  Its contract is \<open>fit(sites, values: matrix[rows, len(sites)], weights, smooth) ->
  {breaks, coeffs, pieces, order, resolved_smooth}\<close>, where the sites are a vector of
  at least 2 entries, the breaks are the sites, there is one piece between two
  consecutive breaks, and the coefficients of a row have total width
  \<open>pieces \<times> order\<close>: when the solver returns on such an input, its form is of this kind.
\<close>

definition solver_contract :: "solver \<Rightarrow> bool" where
  "solver_contract fit \<longleftrightarrow>
     (\<forall>x y w s r rows.
        fit x y w s = Inr r \<and> andim x = 1 \<and> 2 \<le> asize x \<and>
        wf_ndarray y \<and> shape y = [rows, asize x] \<longrightarrow>
          breaks1 (spline1 r) = x \<and>
          pieces1 (spline1 r) = asize x - 1 \<and>
          0 \<le> order1 (spline1 r) \<and>
          wf_ndarray (coeffs1 (spline1 r)) \<and>
          shape (coeffs1 (spline1 r)) = [rows * pieces1 (spline1 r), order1 (spline1 r)])"

text \<open>
  Modelled from the spec: the 1-D evaluator of \<open>_sspumv.py\<close>,
  \<open>evaluate(form, query: vector) -> matrix[rows, len(query)]\<close>, is total on valid input:
  breaks that are a vector of at least 2 entries, coefficients that are a matrix with
  \<open>rows \<times> pieces\<close> rows, and a query vector of at least 2 entries.
\<close>

definition evaluator_contract :: "evaluator \<Rightarrow> bool" where
  "evaluator_contract ev \<longleftrightarrow>
     (\<forall>b c rows sh x ordr.
        andim b = 1 \<and> 2 \<le> asize b \<and>
        wf_ndarray c \<and> shape c = [rows * (asize b - 1), ordr] \<and>
        andim x = 1 \<and> 2 \<le> asize x \<longrightarrow>
          (\<exists>v. ev b c rows sh x = Inr v \<and> wf_ndarray v \<and> shape v = [rows, asize x]))"

text \<open>
  Modelled from the spec: the standalone use of the 1-D solver of \<open>_sspumv.py\<close> on one
  axis, \<open>fit\<close> on the sites, the values as a matrix of one row, the weights and the
  smoothing parameter, then \<open>evaluate(form, query) -> matrix[rows, len(query)]\<close> on the
  form the fit returned.
\<close>

definition standalone_1d ::
    "solver \<Rightarrow> evaluator \<Rightarrow> ndarray \<Rightarrow> ndarray \<Rightarrow> ndarray option \<Rightarrow> pyobj \<Rightarrow> ndarray
       \<Rightarrow> error + ndarray" where
  "standalone_1d fit ev x y w s q =
     bind_e (reshape_F y [1, asize x]) (\<lambda>values.
     bind_e (fit x values w s) (\<lambda>r.
       ev (breaks1 (spline1 r)) (coeffs1 (spline1 r)) 1 [1, asize q] q))"

text \<open>
  A stand-in solver to run the engine on concrete inputs: the piecewise-constant form
  of order 1 that takes, on every piece, the value at the left break. It reports the
  requested smoothing parameter, and \<open>0.5\<close> when none is requested.
\<close>

definition stub_fit :: solver where
  "stub_fit x y w s =
     (let rows = (case shape y of [] \<Rightarrow> 1 | r # ds \<Rightarrow> r);
          p = asize x - 1
      in Inr \<lparr>smooth1 = (case s of PyFloat f \<Rightarrow> f | _ \<Rightarrow> Finite (1 / 2)),
               spline1 = \<lparr>breaks1 = x,
                          coeffs1 = \<lparr>shape = [rows * p, 1],
                                     data = take (nat (rows * p)) (data y)\<rparr>,
                          pieces1 = p,
                          order1 = 1\<rparr>\<rparr>)"

text \<open>
  A second stand-in solver, whose form depends on the smoothing parameter \<open>p\<close>: the
  piecewise-constant form of order 1 that takes, on every piece, \<open>p\<close> times the value
  at the left break. \<open>p\<close> is the requested parameter, and \<open>0.5\<close> when none is requested.
\<close>

fun scale :: "real \<Rightarrow> float64 \<Rightarrow> float64" where
  "scale p (Finite v) = Finite (p * v)"
| "scale p f = f"

definition shrink_fit :: solver where
  "shrink_fit x y w s =
     (let rows = (case shape y of [] \<Rightarrow> 1 | r # ds \<Rightarrow> r);
          n = asize x - 1;
          p = (case s of PyFloat (Finite f) \<Rightarrow> f | _ \<Rightarrow> 1 / 2)
      in Inr \<lparr>smooth1 = (case s of PyFloat f \<Rightarrow> f | _ \<Rightarrow> Finite (1 / 2)),
               spline1 = \<lparr>breaks1 = x,
                          coeffs1 = \<lparr>shape = [rows * n, 1],
                                     data = map (scale p) (take (nat (rows * n)) (data y))\<rparr>,
                          pieces1 = n,
                          order1 = 1\<rparr>\<rparr>)"

text \<open>
  A stand-in evaluator: at every query point, each row takes the coefficient of its
  first piece.
\<close>

definition stub_evaluate :: evaluator where
  "stub_evaluate b c rows sh x =
     Inr \<lparr>shape = [rows, asize x],
          data = concat (replicate (nat (asize x))
                   (take (nat rows) (data c @ replicate (nat rows) NaN)))\<rparr>"

section \<open>The arrays in memory\<close>

text \<open>
  Above, an array is its shape and its entries. What a call may change is a matter of
  memory, so the evaluation is also given on arrays as NumPy has them: a buffer of
  entries in a heap, and array objects that are views of a buffer. The heap is the list
  of the buffers allocated so far; the address of a buffer is its index.
\<close>

type_synonym heap = "float64 list list"

text \<open>
  An array object: the address of its buffer, its shape, and the arrangement that reads
  its entries (in column-major order) out of the buffer. Two views with the same
  address share their entries.
\<close>

record view =
  vbase :: nat
  vshape :: "int list"
  arrange :: "float64 list \<Rightarrow> float64 list"

text \<open>The array a view denotes in a heap.\<close>

definition deref :: "heap \<Rightarrow> view \<Rightarrow> ndarray" where
  "deref h v = \<lparr>shape = vshape v, data = arrange v (h ! vbase v)\<rparr>"

text \<open>\<open>a.size\<close>.\<close>

definition vsize :: "view \<Rightarrow> int" where
  "vsize v = prod_list (vshape v)"

text \<open>\<open>a.copy()\<close>: a new buffer holding the entries of \<open>a\<close>, and the array on it.\<close>

definition copy_v :: "heap \<Rightarrow> view \<Rightarrow> heap \<times> view" where
  "copy_v h v =
     (h @ [arrange v (h ! vbase v)],
      \<lparr>vbase = length h, vshape = vshape v, arrange = (\<lambda>b. b)\<rparr>)"

text \<open>
  \<open>a.reshape(newshape, order='F')\<close> in memory: a view of the buffer of \<open>a\<close> with the new
  shape; the column-major order of the entries is kept. (NumPy returns a view whenever
  the strides allow it and a copy otherwise; the view is the case in which the result
  shares its buffer with \<open>a\<close>.)
\<close>

definition reshape_v :: "view \<Rightarrow> int list \<Rightarrow> error + view" where
  "reshape_v v newshape =
     bind_e (reshape_F \<lparr>shape = vshape v, data = []\<rparr> newshape) (\<lambda>a.
       Inr \<lparr>vbase = vbase v, vshape = shape a, arrange = arrange v\<rparr>)"

text \<open>The entries of an array of shape \<open>sh\<close> after \<open>transpose(axes)\<close>, in column-major
  order.\<close>

definition permute_data :: "int list \<Rightarrow> nat list \<Rightarrow> float64 list \<Rightarrow> float64 list" where
  "permute_data sh axes d =
     (let sh' = map (\<lambda>k. sh ! k) axes
      in map (\<lambda>j. d ! ravel_F sh
                     (map (\<lambda>dim. unravel_F sh' j ! index_of axes dim) [0..<length sh]))
           [0..<nat (prod_list sh')])"

text \<open>\<open>a.transpose(axes)\<close> in memory: always a view of the buffer of \<open>a\<close>.\<close>

definition transpose_v :: "view \<Rightarrow> nat list \<Rightarrow> error + view" where
  "transpose_v v axes =
     (if sort axes \<noteq> [0..<length (vshape v)] then Inl ValueError
      else Inr \<lparr>vbase = vbase v,
                 vshape = map (\<lambda>k. vshape v ! k) axes,
                 arrange = (\<lambda>b. permute_data (vshape v) axes (arrange v b))\<rparr>)"

text \<open>
  The object \<open>NdGridSplinePPForm\<close> in memory: \<open>breaks\<close> and \<open>coeffs\<close> are arrays, held
  by reference; \<open>pieces\<close> and \<open>order\<close> are tuples of integers and \<open>ndim\<close> is an integer,
  all immutable.
\<close>

record NdGridSplinePPForm_h =
  breaks_h :: "view list"
  coeffs_h :: view
  pieces_h :: "int list"
  order_h :: "int list"
  ndim_h :: nat

text \<open>The form an object denotes in a heap.\<close>

definition form_of :: "heap \<Rightarrow> NdGridSplinePPForm_h \<Rightarrow> NdGridSplinePPForm" where
  "form_of h f =
     \<lparr>breaks = map (deref h) (breaks_h f), coeffs = deref h (coeffs_h f),
      pieces = pieces_h f, order = order_h f, ndim = ndim_h f\<rparr>"

text \<open>
  \<open>SplinePPForm(breaks, coeffs, ndim, shape).evaluate(xi)\<close> in memory: it receives the
  heap and the arrays it is handed, and returns the heap it leaves with its result.
\<close>

type_synonym evaluator_h =
  "heap \<Rightarrow> view \<Rightarrow> view \<Rightarrow> int \<Rightarrow> int list \<Rightarrow> view \<Rightarrow> heap \<times> (error + view)"

text \<open>
  The loop of \<open>NdGridSplinePPForm.evaluate\<close> in memory. The statements of the loop other
  than the call of the 1-D evaluator read attributes, index tuples and make views: they
  write to no buffer. The array \<open>coeffs\<close> handed to the 1-D evaluator is a view of
  the buffer of \<open>yi\<close>.
\<close>

fun evaluate_loop_h ::
    "evaluator_h \<Rightarrow> NdGridSplinePPForm_h \<Rightarrow> view list \<Rightarrow> int list \<Rightarrow> nat list
       \<Rightarrow> heap \<times> view \<times> int list \<Rightarrow> heap \<times> (error + view \<times> int list)" where
  "evaluate_loop_h ev self xi nsize [] (h, yi, sizey) = (h, Inr (yi, sizey))"
| "evaluate_loop_h ev self xi nsize (i # axes) (h, yi, sizey) =
     (let ndim' = prod_list (take (ndim_h self) sizey)
      in case bind_e (getitem (pieces_h self) i) (\<lambda>p.
              bind_e (getitem (order_h self) i) (\<lambda>ordr.
              bind_e (reshape_v yi [ndim' * p, ordr]) (\<lambda>coeffs'.
              bind_e (getitem (breaks_h self) i) (\<lambda>b.
              bind_e (getitem xi i) (\<lambda>x. Inr (coeffs', b, x)))))) of
           Inl e \<Rightarrow> (h, Inl e)
         | Inr (coeffs', b, x) \<Rightarrow>
             (case ev h b coeffs' ndim' [ndim', vsize x] x of
                (h', Inl e) \<Rightarrow> (h', Inl e)
              | (h', Inr yi1) \<Rightarrow>
                  (case bind_e (getitem nsize i) (\<lambda>m.
                        bind_e (reshape_v yi1 (take (ndim_h self) sizey @ [m])) (\<lambda>yi2.
                          transpose_v yi2 (0 # ndim_h self # [1..<ndim_h self]))) of
                     Inl e \<Rightarrow> (h', Inl e)
                   | Inr yi3 \<Rightarrow>
                       evaluate_loop_h ev self xi nsize axes (h', yi3, vshape yi3))))"

text \<open>
  \<open>NdGridSplinePPForm.evaluate(self, xi)\<close> in memory. \<open>yi = self.coeffs.copy()\<close>
  allocates a buffer; the loop works on it and on the buffers the 1-D evaluator
  returns.
\<close>

definition evaluate_h ::
    "evaluator_h \<Rightarrow> heap \<Rightarrow> NdGridSplinePPForm_h \<Rightarrow> view list \<Rightarrow> heap \<times> (error + view)" where
  "evaluate_h ev h self xi =
     (case copy_v h (coeffs_h self) of
        (h1, yi) \<Rightarrow>
          (let sizey = vshape yi;
               nsize = map vsize xi
           in case evaluate_loop_h ev self xi nsize (rev [0..<ndim_h self]) (h1, yi, sizey) of
                (h', Inl e) \<Rightarrow> (h', Inl e)
              | (h', Inr (yi', sizey')) \<Rightarrow> (h', reshape_v yi' nsize)))"

text \<open>
  Modelled from the spec: the 1-D evaluator of \<open>_sspumv.py\<close> is deterministic and free
  of hidden state. In memory: its result is an array on a buffer it has allocated,
  whose shape and entries are those the function \<open>ev\<close> gives for the arrays it is
  handed, and it leaves the buffers that exist as they are. The contract asks less than
  the spec says: the evaluator may write to the buffer of the coefficient array it is
  handed.
\<close>

definition evaluator_frame :: "evaluator_h \<Rightarrow> evaluator \<Rightarrow> bool" where
  "evaluator_frame ev_h ev \<longleftrightarrow>
     (\<forall>h b c n sh x.
        vbase b < length h \<and> vbase c < length h \<and> vbase x < length h \<longrightarrow>
          (case ev_h h b c n sh x of
             (h', r) \<Rightarrow>
               length h \<le> length h' \<and>
               (\<forall>a<length h. a \<noteq> vbase c \<longrightarrow> h' ! a = h ! a) \<and>
               map_sum id (deref h') r = ev (deref h b) (deref h c) n sh (deref h x) \<and>
               (case r of Inl e \<Rightarrow> True
                | Inr v \<Rightarrow> length h \<le> vbase v \<and> vbase v < length h')))"

text \<open>
  A stand-in evaluator in memory that meets this contract and does write to the
  coefficient array it is handed: it overwrites every entry of that buffer with NaN
  and returns the result of \<open>stub_evaluate\<close> on a new buffer.
\<close>

definition stub_evaluate_h :: evaluator_h where
  "stub_evaluate_h h b c n sh x =
     (case stub_evaluate (deref h b) (deref h c) n sh (deref h x) of
        Inl e \<Rightarrow> (h, Inl e)
      | Inr a \<Rightarrow>
          (h[vbase c := map (\<lambda>f. NaN) (h ! vbase c)] @ [data a],
           Inr \<lparr>vbase = length h, vshape = shape a, arrange = (\<lambda>b. b)\<rparr>))"


section \<open>Concrete inputs\<close>

text \<open>The grid \<open>xdata = [[0, 1, 2, 3], [0, 1, 2]]\<close> with \<open>ydata[i][j] = i + 2 * j\<close>, of
  shape \<open>(4, 3)\<close>; its entries are listed column by column.\<close>

definition grid_x :: pyobj where
  "grid_x = PyList [PyList [PyFloat (Finite 0), PyFloat (Finite 1), PyFloat (Finite 2),
                            PyFloat (Finite 3)],
                    PyList [PyFloat (Finite 0), PyFloat (Finite 1), PyFloat (Finite 2)]]"

definition grid_sites :: "ndarray list" where
  "grid_sites = [\<lparr>shape = [4], data = [Finite 0, Finite 1, Finite 2, Finite 3]\<rparr>,
                 \<lparr>shape = [3], data = [Finite 0, Finite 1, Finite 2]\<rparr>]"

definition grid_y :: ndarray where
  "grid_y = \<lparr>shape = [4, 3],
             data = [Finite 0, Finite 1, Finite 2, Finite 3,
                     Finite 2, Finite 3, Finite 4, Finite 5,
                     Finite 4, Finite 5, Finite 6, Finite 7]\<rparr>"

text \<open>The single axis \<open>xdata = [[0, 1, 2]]\<close> with values \<open>[5, 7, 6]\<close>.\<close>

definition line_x :: pyobj where
  "line_x = PyList [PyList [PyFloat (Finite 0), PyFloat (Finite 1), PyFloat (Finite 2)]]"

definition line_sites :: "ndarray list" where
  "line_sites = [\<lparr>shape = [3], data = [Finite 0, Finite 1, Finite 2]\<rparr>]"

definition line_y :: ndarray where
  "line_y = \<lparr>shape = [3], data = [Finite 5, Finite 7, Finite 6]\<rparr>"

text \<open>The object the constructor builds from this grid with the stand-in solver, no
  weights and \<open>smooth = [0.25, 0.75]\<close>.\<close>

definition grid_smooth :: pyobj where
  "grid_smooth = PyList [PyFloat (Finite (1 / 4)), PyFloat (Finite (3 / 4))]"

definition grid_fit :: NdGridCubicSmoothingSpline where
  "grid_fit =
     \<lparr>xdata = grid_sites, ydata = grid_y, weights = [None, None], ndim_of = 2,
      spline = \<lparr>breaks = grid_sites,
                coeffs = \<lparr>shape = [1, 3, 2],
                           data = [Finite 0, Finite 1, Finite 2, Finite 2, Finite 3, Finite 4]\<rparr>,
                pieces = [3, 2], order = [1, 1], ndim = 2\<rparr>,
      smooth = [Finite (3 / 4), Finite (1 / 4)]\<rparr>"

text \<open>The vector of \<open>line_x\<close>, and the query \<open>xi = [[0.5, 1.5]]\<close> with its vector.\<close>

definition line_site :: ndarray where
  "line_site = \<lparr>shape = [3], data = [Finite 0, Finite 1, Finite 2]\<rparr>"

definition line_query :: pyobj where
  "line_query = PyList [PyList [PyFloat (Finite (1 / 2)), PyFloat (Finite (3 / 2))]]"

definition line_query_site :: ndarray where
  "line_query_site = \<lparr>shape = [2], data = [Finite (1 / 2), Finite (3 / 2)]\<rparr>"

text \<open>
  A heap of three buffers and a form of one axis on it: coefficients \<open>[[5, 7]]\<close> at
  address 0, breaks \<open>[0, 1, 2]\<close> at address 1; and the query \<open>[0.5, 1.5]\<close> at address 2.
\<close>

definition mem_heap :: heap where
  "mem_heap = [[Finite 5, Finite 7], [Finite 0, Finite 1, Finite 2],
               [Finite (1 / 2), Finite (3 / 2)]]"

definition mem_form :: NdGridSplinePPForm_h where
  "mem_form =
     \<lparr>breaks_h = [\<lparr>vbase = 1, vshape = [3], arrange = (\<lambda>b. b)\<rparr>],
      coeffs_h = \<lparr>vbase = 0, vshape = [1, 2], arrange = (\<lambda>b. b)\<rparr>,
      pieces_h = [2], order_h = [1], ndim_h = 1\<rparr>"

definition mem_query :: "view list" where
  "mem_query = [\<lparr>vbase = 2, vshape = [2], arrange = (\<lambda>b. b)\<rparr>]"


section \<open>Properties of the axis validator\<close>

lemma sequence_e_Inl: "sequence_e rs = Inl e \<Longrightarrow> Inl e \<in> set rs"
  by (induction rs) (auto split: sum.splits)

lemma stack_error: "stack cs = Inl e \<Longrightarrow> e = ValueError"
  by (cases cs) (auto split: if_splits)

lemma np_array_error: "np_array x = Inl e \<Longrightarrow> e = ValueError"
proof (induction x rule: np_array.induct)
  case (4 xs)
  then show ?case
    by (auto split: sum.splits dest!: sequence_e_Inl stack_error)
next
  case (5 xs)
  then show ?case
    by (auto split: sum.splits dest!: sequence_e_Inl stack_error)
qed simp_all

lemma prepare_sites_loop_error: "prepare_sites_loop xs = Inl e \<Longrightarrow> e = ValueError"
  by (induction xs) (auto split: sum.splits if_splits dest: np_array_error)

lemma scalar_size: "andim a = 0 \<Longrightarrow> asize a = 1"
  by (simp add: andim_def asize_def)

lemma vector_checks:
  "\<not> 1 < andim a \<and> \<not> asize a < 2 \<longleftrightarrow> andim a = 1 \<and> 2 \<le> asize a"
  using scalar_size [of a] by (cases "andim a = 0") auto

lemma prepare_sites_loop_bad:
  "x \<in> set xs \<Longrightarrow> np_array x = Inr a \<Longrightarrow> andim a \<noteq> 1 \<or> asize a < 2
     \<Longrightarrow> prepare_sites_loop xs = Inl ValueError"
proof (induction xs)
  case Nil
  then show ?case by simp
next
  case (Cons y ys)
  show ?case
  proof (cases "x = y")
    case True
    with Cons.prems show ?thesis
      using vector_checks [of a] by (auto split: sum.splits)
  next
    case False
    with Cons have "prepare_sites_loop ys = Inl ValueError" by simp
    then show ?thesis
      by (auto split: sum.splits dest: np_array_error)
  qed
qed

lemma prepare_sites_loop_Inr:
  "prepare_sites_loop xs = Inr vs \<Longrightarrow>
     map np_array xs = map Inr vs \<and> list_all (\<lambda>v. andim v = 1 \<and> 2 \<le> asize v) vs"
proof (induction xs arbitrary: vs)
  case Nil
  then show ?case by simp
next
  case (Cons y ys)
  from Cons.prems obtain a r
    where a: "np_array y = Inr a" "\<not> 1 < andim a" "\<not> asize a < 2"
      and r: "prepare_sites_loop ys = Inr r" and vs: "vs = a # r"
    by (auto split: sum.splits if_splits)
  from a have "andim a = 1 \<and> 2 \<le> asize a"
    using vector_checks [of a] by simp
  with Cons.IH [OF r] a vs show ?case by simp
qed

lemma prepare_sites_loop_arrays:
  "list_all (\<lambda>a. andim a = 1 \<and> 2 \<le> asize a) as \<Longrightarrow>
     prepare_sites_loop (map PyArray as) = Inr as"
  by (induction as) auto

text \<open>
  C3, as the code has it. \<open>ndgrid_prepare_data_sites\<close> checks the dimensionality and the
  number of entries of each vector and nothing else: every vector it returns is 1-D
  with at least 2 entries, and every sequence of such vectors is accepted whatever its
  entries are, NaN and the infinities included.
\<close>

theorem ndgrid_prepare_data_sites_vectors:
  "(ndgrid_prepare_data_sites d = Inr vs \<longrightarrow>
      list_all (\<lambda>v. andim v = 1 \<and> 2 \<le> asize v) vs) \<and>
   (list_all (\<lambda>a. andim a = 1 \<and> 2 \<le> asize a) as \<longrightarrow>
      ndgrid_prepare_data_sites (PyList (map PyArray as)) = Inr as)"
  by (auto simp: ndgrid_prepare_data_sites_def prepare_sites_loop_arrays
      dest: prepare_sites_loop_Inr split: if_splits)

theorem ndgrid_prepare_data_sites_vectors_witness:
  "ndgrid_prepare_data_sites (PyList [PyList [PyFloat (Finite 0), PyFloat (Finite 1)]])
     = Inr [\<lparr>shape = [2], data = [Finite 0, Finite 1]\<rparr>] \<and>
   list_all (\<lambda>v. andim v = 1 \<and> 2 \<le> asize v) [\<lparr>shape = [2], data = [Finite 0, Finite 1]\<rparr>] \<and>
   ndgrid_prepare_data_sites (PyList (map PyArray [\<lparr>shape = [2], data = [NaN, NegInf]\<rparr>]))
     = Inr [\<lparr>shape = [2], data = [NaN, NegInf]\<rparr>]"
proof -
  have run: "ndgrid_prepare_data_sites (PyList [PyList [PyFloat (Finite 0), PyFloat (Finite 1)]])
     = Inr [\<lparr>shape = [2], data = [Finite 0, Finite 1]\<rparr>]"
    by (simp add: ndgrid_prepare_data_sites_def andim_def asize_def)
  have vec: "list_all (\<lambda>a. andim a = 1 \<and> 2 \<le> asize a) [\<lparr>shape = [2], data = [NaN, NegInf]\<rparr>]"
    by (simp add: andim_def asize_def)
  show ?thesis
    using run vec
      ndgrid_prepare_data_sites_vectors
        [of "PyList [PyList [PyFloat (Finite 0), PyFloat (Finite 1)]]"
            "[\<lparr>shape = [2], data = [Finite 0, Finite 1]\<rparr>]"
            "[\<lparr>shape = [2], data = [NaN, NegInf]\<rparr>]"]
    by simp
qed

text \<open>
  C3, as the claim states it, fails: the sequence holding the single axis vector
  \<open>[nan, inf]\<close> passes validation, and the vector held afterwards is not finite.
\<close>

theorem ndgrid_prepare_data_sites_accepts_nonfinite:
  "ndgrid_prepare_data_sites (PyList [PyList [PyFloat NaN, PyFloat PosInf]])
     = Inr [\<lparr>shape = [2], data = [NaN, PosInf]\<rparr>] \<and>
   \<not> isfinite NaN \<and> \<not> isfinite PosInf"
  by (simp add: ndgrid_prepare_data_sites_def andim_def asize_def)

text \<open>
  C7. The validator raises \<open>TypeError\<close> on an input that is not a sequence. It raises
  \<open>ValueError\<close> on a sequence with an element whose float64 array is not 1-D or has
  fewer than 2 entries. When it returns, the vectors are the float64 arrays of the
  elements of the input, in order, each 1-D with at least 2 entries; the input, a value
  of the model, is not changed by the call.
\<close>

theorem ndgrid_prepare_data_sites_raises:
  "(\<not> is_sequence d \<longrightarrow> ndgrid_prepare_data_sites d = Inl TypeError) \<and>
   (is_sequence d \<and> x \<in> set (items d) \<and> np_array x = Inr a \<and>
      (andim a \<noteq> 1 \<or> asize a < 2) \<longrightarrow>
        ndgrid_prepare_data_sites d = Inl ValueError) \<and>
   (ndgrid_prepare_data_sites d = Inr vs \<longrightarrow>
      is_sequence d \<and> map np_array (items d) = map Inr vs \<and>
      list_all (\<lambda>v. andim v = 1 \<and> 2 \<le> asize v) vs)"
proof (intro conjI impI)
  assume "\<not> is_sequence d"
  then show "ndgrid_prepare_data_sites d = Inl TypeError"
    by (simp add: ndgrid_prepare_data_sites_def)
next
  assume "is_sequence d \<and> x \<in> set (items d) \<and> np_array x = Inr a \<and>
    (andim a \<noteq> 1 \<or> asize a < 2)"
  then show "ndgrid_prepare_data_sites d = Inl ValueError"
    using prepare_sites_loop_bad [of x "items d" a]
    by (simp add: ndgrid_prepare_data_sites_def)
next
  assume r: "ndgrid_prepare_data_sites d = Inr vs"
  then show "is_sequence d"
    by (simp add: ndgrid_prepare_data_sites_def split: if_splits)
  with r have "prepare_sites_loop (items d) = Inr vs"
    by (simp add: ndgrid_prepare_data_sites_def)
  then show "map np_array (items d) = map Inr vs"
    and "list_all (\<lambda>v. andim v = 1 \<and> 2 \<le> asize v) vs"
    using prepare_sites_loop_Inr [of "items d" vs] by blast+
qed

theorem ndgrid_prepare_data_sites_raises_witness:
  "ndgrid_prepare_data_sites (PyFloat (Finite 1)) = Inl TypeError \<and>
   ndgrid_prepare_data_sites
     (PyList [PyList [PyFloat (Finite 0), PyFloat (Finite 1)], PyList [PyFloat (Finite 2)]])
     = Inl ValueError \<and>
   ndgrid_prepare_data_sites
     (PyTuple [PyList [PyList [PyFloat (Finite 0), PyFloat (Finite 1)],
                       PyList [PyFloat (Finite 2), PyFloat (Finite 3)]]])
     = Inl ValueError \<and>
   ndgrid_prepare_data_sites (PyTuple [PyList [PyFloat (Finite 0), PyFloat (Finite 1)]])
     = Inr [\<lparr>shape = [2], data = [Finite 0, Finite 1]\<rparr>] \<and>
   map np_array (items (PyTuple [PyList [PyFloat (Finite 0), PyFloat (Finite 1)]]))
     = map Inr [\<lparr>shape = [2], data = [Finite 0, Finite 1]\<rparr>]"
proof -
  have short: "np_array (PyList [PyFloat (Finite 2)]) = Inr \<lparr>shape = [1], data = [Finite 2]\<rparr>"
    by simp
  have matrix: "np_array (PyList [PyList [PyFloat (Finite 0), PyFloat (Finite 1)],
                       PyList [PyFloat (Finite 2), PyFloat (Finite 3)]])
      = Inr \<lparr>shape = [2, 2], data = [Finite 0, Finite 2, Finite 1, Finite 3]\<rparr>"
    by simp
  have ok: "ndgrid_prepare_data_sites (PyTuple [PyList [PyFloat (Finite 0), PyFloat (Finite 1)]])
     = Inr [\<lparr>shape = [2], data = [Finite 0, Finite 1]\<rparr>]"
    by (simp add: ndgrid_prepare_data_sites_def andim_def asize_def)
  show ?thesis
    using short matrix ok
      ndgrid_prepare_data_sites_raises [of "PyFloat (Finite 1)"]
      ndgrid_prepare_data_sites_raises
        [of "PyList [PyList [PyFloat (Finite 0), PyFloat (Finite 1)], PyList [PyFloat (Finite 2)]]"
            "PyList [PyFloat (Finite 2)]" "\<lparr>shape = [1], data = [Finite 2]\<rparr>"]
      ndgrid_prepare_data_sites_raises
        [of "PyTuple [PyList [PyList [PyFloat (Finite 0), PyFloat (Finite 1)],
                       PyList [PyFloat (Finite 2), PyFloat (Finite 3)]]]"
            "PyList [PyList [PyFloat (Finite 0), PyFloat (Finite 1)],
                       PyList [PyFloat (Finite 2), PyFloat (Finite 3)]]"
            "\<lparr>shape = [2, 2], data = [Finite 0, Finite 2, Finite 1, Finite 3]\<rparr>"]
      ndgrid_prepare_data_sites_raises
        [of "PyTuple [PyList [PyFloat (Finite 0), PyFloat (Finite 1)]]" _ _
            "[\<lparr>shape = [2], data = [Finite 0, Finite 1]\<rparr>]"]
    by (simp add: andim_def asize_def)
qed

section \<open>Properties of the validation of the constructor\<close>

lemma bind_e_Inr_iff: "bind_e m f = Inr y \<longleftrightarrow> (\<exists>x. m = Inr x \<and> f x = Inr y)"
  by (cases m) auto

lemma bind_e_Inl_iff:
  "bind_e m f = Inl e \<longleftrightarrow> m = Inl e \<or> (\<exists>x. m = Inr x \<and> f x = Inl e)"
  by (cases m) auto

lemma alen_vector: "andim x = 1 \<Longrightarrow> alen x = Inr (asize x)"
  by (cases "shape x") (auto simp: alen_def andim_def asize_def)

lemma check_ydata_sizes_vectors:
  "list_all (\<lambda>v. andim v = 1) xs \<Longrightarrow> length sh = length xs \<Longrightarrow>
     check_ydata_sizes sh xs =
       (if \<forall>k<length xs. sh ! k = asize (xs ! k) then Inr () else Inl ValueError)"
proof (induction sh xs rule: check_ydata_sizes.induct)
  case (1 yd yds x xs)
  then show ?case
    by (auto simp: alen_vector less_Suc_eq_0_disj)
qed simp_all

lemma check_weights_sizes_None: "check_weights_sizes (replicate n None) xs = Inr ()"
  by (induction n arbitrary: xs) (case_tac xs; simp)+

lemma vectors_1d:
  "list_all (\<lambda>v. andim v = 1 \<and> 2 \<le> asize v) vs \<Longrightarrow> list_all (\<lambda>v. andim v = 1) vs"
  by (induction vs) auto

lemma ndgrid_prepare_data_sites_Inr:
  "ndgrid_prepare_data_sites d = Inr vs \<Longrightarrow>
     list_all (\<lambda>v. andim v = 1 \<and> 2 \<le> asize v) vs"
  using prepare_sites_loop_Inr [of "items d" vs]
  by (simp add: ndgrid_prepare_data_sites_def split: if_splits)

lemma ndgrid_prepare_data_sites_1d:
  "ndgrid_prepare_data_sites d = Inr vs \<Longrightarrow> list_all (\<lambda>v. andim v = 1) vs"
  by (rule vectors_1d) (rule ndgrid_prepare_data_sites_Inr)

lemma prepare_data_Inr:
  assumes "prepare_data xd yd ws sm = Inr (xs, y, w, s)"
  shows "ndgrid_prepare_data_sites xd = Inr xs" and "y = yd" and "andim yd = length xs"
    and "check_ydata_sizes (shape yd) xs = Inr ()"
    and "length w = length xs" and "length s = length xs"
    and "check_weights_sizes w xs = Inr ()"
  using assms
  by (auto simp: prepare_data_def bind_e_Inr_iff Let_def split: if_splits)

lemma grid_x_sites: "ndgrid_prepare_data_sites grid_x = Inr grid_sites"
  by (simp add: ndgrid_prepare_data_sites_def grid_x_def grid_sites_def andim_def asize_def)

lemma line_x_sites: "ndgrid_prepare_data_sites line_x = Inr line_sites"
  by (simp add: ndgrid_prepare_data_sites_def line_x_def line_sites_def andim_def asize_def)

lemma grid_y_sizes: "\<forall>k<length grid_sites. shape grid_y ! k = asize (grid_sites ! k)"
  by (simp add: grid_sites_def grid_y_def asize_def less_Suc_eq_0_disj numeral_2_eq_2)

text \<open>
  C6. When the array of \<open>ydata\<close> has another number of dimensions than \<open>xdata\<close> has
  vectors, or another extent than the length of the vector along some axis, the
  validation raises \<open>ValueError\<close>, and so does the constructor whatever the 1-D solver
  is: the solver is not reached.
\<close>

theorem construction_rejects_shape_mismatch:
  "ndgrid_prepare_data_sites xd = Inr xs \<and>
   (andim yd \<noteq> length xs \<or> (\<exists>k<length xs. shape yd ! k \<noteq> asize (xs ! k))) \<longrightarrow>
     prepare_data xd yd ws sm = Inl ValueError \<and>
     (\<forall>fit. NdGridCubicSmoothingSpline_init fit xd yd ws sm = Inl ValueError)"
proof (intro impI)
  assume h: "ndgrid_prepare_data_sites xd = Inr xs \<and>
   (andim yd \<noteq> length xs \<or> (\<exists>k<length xs. shape yd ! k \<noteq> asize (xs ! k)))"
  then have xs: "ndgrid_prepare_data_sites xd = Inr xs" by simp
  have "prepare_data xd yd ws sm = Inl ValueError"
  proof (cases "andim yd = length xs")
    case False
    with xs show ?thesis by (simp add: prepare_data_def)
  next
    case True
    with h have "\<not> (\<forall>k<length xs. shape yd ! k = asize (xs ! k))" by blast
    moreover from True have "length (shape yd) = length xs" by (simp add: andim_def)
    ultimately have "check_ydata_sizes (shape yd) xs = Inl ValueError"
      using check_ydata_sizes_vectors [OF ndgrid_prepare_data_sites_1d [OF xs]] by simp
    with xs True show ?thesis by (simp add: prepare_data_def)
  qed
  then show "prepare_data xd yd ws sm = Inl ValueError \<and>
     (\<forall>fit. NdGridCubicSmoothingSpline_init fit xd yd ws sm = Inl ValueError)"
    by (simp add: NdGridCubicSmoothingSpline_init_def)
qed

theorem construction_rejects_shape_mismatch_witness:
  "ndgrid_prepare_data_sites line_x = Inr line_sites \<and>
   andim \<lparr>shape = [3, 3], data = replicate 9 (Finite 0)\<rparr> \<noteq> length line_sites \<and>
   (\<forall>fit. NdGridCubicSmoothingSpline_init fit line_x
      \<lparr>shape = [3, 3], data = replicate 9 (Finite 0)\<rparr> PyNone PyNone = Inl ValueError) \<and>
   (\<exists>k<length grid_sites.
      shape \<lparr>shape = [4, 4], data = replicate 16 (Finite 0)\<rparr> ! k \<noteq> asize (grid_sites ! k)) \<and>
   (\<forall>fit. NdGridCubicSmoothingSpline_init fit grid_x
      \<lparr>shape = [4, 4], data = replicate 16 (Finite 0)\<rparr> PyNone PyNone = Inl ValueError)"
proof -
  have nd: "andim \<lparr>shape = [3, 3], data = replicate 9 (Finite 0)\<rparr> \<noteq> length line_sites"
    by (simp add: andim_def line_sites_def)
  have "1 < length grid_sites \<and>
      shape \<lparr>shape = [4, 4], data = replicate 16 (Finite 0)\<rparr> ! 1 \<noteq> asize (grid_sites ! 1)"
    by (simp add: grid_sites_def asize_def)
  then have ext: "\<exists>k<length grid_sites.
      shape \<lparr>shape = [4, 4], data = replicate 16 (Finite 0)\<rparr> ! k \<noteq> asize (grid_sites ! k)"
    by blast
  show ?thesis
    using line_x_sites grid_x_sites nd ext
      construction_rejects_shape_mismatch
        [of line_x line_sites "\<lparr>shape = [3, 3], data = replicate 9 (Finite 0)\<rparr>" PyNone PyNone]
      construction_rejects_shape_mismatch
        [of grid_x grid_sites "\<lparr>shape = [4, 4], data = replicate 16 (Finite 0)\<rparr>" PyNone PyNone]
    by blast
qed

text \<open>
  C10. A falsy \<open>weights\<close> (an empty list or tuple, \<open>None\<close>, zero, an empty array) takes
  the branch \<open>weights = [None] * data_ndim\<close>: validation and construction go exactly as
  with \<open>weights\<close> omitted, and for \<open>xdata\<close> and \<open>ydata\<close> that fit each other the
  validation returns with \<open>None\<close> (uniform weighting) on every axis, so no
  length-mismatch error is raised.
\<close>

theorem falsy_weights_as_omitted:
  "py_not ws = Inr True \<longrightarrow>
     prepare_data xd yd ws sm = prepare_data xd yd PyNone sm \<and>
     NdGridCubicSmoothingSpline_init fit xd yd ws sm
       = NdGridCubicSmoothingSpline_init fit xd yd PyNone sm \<and>
     (ndgrid_prepare_data_sites xd = Inr xs \<and> andim yd = length xs \<and>
      (\<forall>k<length xs. shape yd ! k = asize (xs ! k)) \<longrightarrow>
        prepare_data xd yd ws PyNone
          = Inr (xs, yd, replicate (length xs) None, replicate (length xs) PyNone))"
proof (intro impI conjI)
  assume f: "py_not ws = Inr True"
  then show eq: "prepare_data xd yd ws sm = prepare_data xd yd PyNone sm"
    by (simp add: prepare_data_def Let_def cong: if_cong)
  then show "NdGridCubicSmoothingSpline_init fit xd yd ws sm
       = NdGridCubicSmoothingSpline_init fit xd yd PyNone sm"
    by (simp add: NdGridCubicSmoothingSpline_init_def)
  assume v: "ndgrid_prepare_data_sites xd = Inr xs \<and> andim yd = length xs \<and>
      (\<forall>k<length xs. shape yd ! k = asize (xs ! k))"
  then have "check_ydata_sizes (shape yd) xs = Inr ()"
    using check_ydata_sizes_vectors [of xs "shape yd"] ndgrid_prepare_data_sites_1d [of xd xs]
    by (simp add: andim_def)
  with f v show "prepare_data xd yd ws PyNone
          = Inr (xs, yd, replicate (length xs) None, replicate (length xs) PyNone)"
    by (simp add: prepare_data_def check_weights_sizes_None Let_def)
qed

theorem falsy_weights_as_omitted_witness:
  "py_not (PyList []) = Inr True \<and>
   length (items (PyList [])) \<noteq> length grid_sites \<and>
   ndgrid_prepare_data_sites grid_x = Inr grid_sites \<and>
   prepare_data grid_x grid_y (PyList []) PyNone
     = Inr (grid_sites, grid_y, [None, None], [PyNone, PyNone]) \<and>
   NdGridCubicSmoothingSpline_init stub_fit grid_x grid_y (PyList []) PyNone
     = NdGridCubicSmoothingSpline_init stub_fit grid_x grid_y PyNone PyNone"
proof -
  have f: "py_not (PyList []) = Inr True" by simp
  have n: "andim grid_y = length grid_sites"
    by (simp add: andim_def grid_y_def grid_sites_def)
  have l: "length grid_sites = 2" by (simp add: grid_sites_def)
  have v: "ndgrid_prepare_data_sites grid_x = Inr grid_sites \<and>
      andim grid_y = length grid_sites \<and>
      (\<forall>k<length grid_sites. shape grid_y ! k = asize (grid_sites ! k))"
    using n grid_x_sites grid_y_sizes by simp
  from falsy_weights_as_omitted [of "PyList []" grid_x grid_y PyNone stub_fit grid_sites] f v
  have r: "prepare_data grid_x grid_y (PyList []) PyNone
      = Inr (grid_sites, grid_y, replicate (length grid_sites) None,
             replicate (length grid_sites) PyNone)"
    and e: "NdGridCubicSmoothingSpline_init stub_fit grid_x grid_y (PyList []) PyNone
     = NdGridCubicSmoothingSpline_init stub_fit grid_x grid_y PyNone PyNone"
    by blast+
  from r have "prepare_data grid_x grid_y (PyList []) PyNone
     = Inr (grid_sites, grid_y, [None, None], [PyNone, PyNone])"
    by (simp add: l numeral_2_eq_2)
  with f e l grid_x_sites show ?thesis by simp
qed

text \<open>
  C2 at the scalar \<open>smooth = 0\<close>. The test \<open>if not smooth\<close> is true for \<open>0.0\<close>, so the
  scalar is replaced by \<open>[None] * data_ndim\<close> and every axis is fitted with automatic
  selection, while the sequence \<open>[0.0, 0.0]\<close> requests \<open>0.0\<close> on both axes.
\<close>

theorem scalar_zero_smooth_requests_auto:
  "prepare_data grid_x grid_y PyNone (PyFloat (Finite 0))
     = Inr (grid_sites, grid_y, [None, None], [PyNone, PyNone]) \<and>
   prepare_data grid_x grid_y PyNone (PyList [PyFloat (Finite 0), PyFloat (Finite 0)])
     = Inr (grid_sites, grid_y, [None, None], [PyFloat (Finite 0), PyFloat (Finite 0)])"
  by (simp add: prepare_data_def grid_x_sites Let_def)
    (simp add: grid_sites_def grid_y_def andim_def asize_def alen_def)

lemma prepare_data_smooth_zero:
  "prepare_data xd yd ws (PyFloat (Finite 0)) = prepare_data xd yd ws PyNone"
  by (simp add: prepare_data_def Let_def cong: if_cong)

lemma prepare_data_smooth_scalar:
  "s \<noteq> Finite 0 \<Longrightarrow> prepare_data xd yd ws (PyFloat s) = Inr (xs, y, w, sm) \<Longrightarrow>
     sm = replicate (length xs) (PyFloat s)"
  by (auto simp: prepare_data_def bind_e_Inr_iff Let_def split: if_splits)

section \<open>Reshaping and rotating arrays\<close>

lemma filter_neg_nonneg: "list_all (\<lambda>d. (0::int) \<le> d) ns \<Longrightarrow> filter (\<lambda>d. d < 0) ns = []"
  by (induction ns) auto

lemma filter_nonneg_id: "list_all (\<lambda>d. (0::int) \<le> d) ns \<Longrightarrow> filter (\<lambda>d. 0 \<le> d) ns = ns"
  by (induction ns) auto

lemma reshape_F_nonneg:
  "list_all (\<lambda>d. 0 \<le> d) ns \<Longrightarrow>
     reshape_F a ns =
       (if prod_list ns = asize a then Inr \<lparr>shape = ns, data = data a\<rparr> else Inl ValueError)"
  by (simp add: reshape_F_def filter_neg_nonneg filter_nonneg_id)

lemma wf_reshape:
  "wf_ndarray a \<Longrightarrow> list_all (\<lambda>d. 0 \<le> d) ns \<Longrightarrow> prod_list ns = asize a \<Longrightarrow>
     wf_ndarray \<lparr>shape = ns, data = data a\<rparr>"
  by (simp add: wf_ndarray_def asize_def)

lemma sort_rotation: "0 < n \<Longrightarrow> sort (0 # n # [1..<n]) = [0..<Suc n]"
proof -
  assume n: "0 < n"
  have "insort n [1..<n] = [1..<n] @ [n]"
    by (rule sorted_insort_is_snoc) auto
  then have "sort (n # [1..<n]) = [1..<Suc n]"
    using n by (simp add: sort_upt)
  then have "sort (0 # n # [1..<n]) = insort 0 [1..<Suc n]"
    by simp
  also have "\<dots> = 0 # [1..<Suc n]"
    by (rule insort_is_Cons) auto
  also have "\<dots> = [0..<Suc n]"
    by (simp add: upt_rec)
  finally show ?thesis .
qed

lemma map_nth_rotation:
  assumes "length sh = Suc n" "0 < n"
  shows "map (\<lambda>k. sh ! k) (0 # n # [1..<n]) = hd sh # last sh # butlast (tl sh)"
proof -
  from assms obtain a rest where sh: "sh = a # rest" and r: "length rest = n"
    by (cases sh) auto
  from r assms(2) have rest: "rest \<noteq> []" by auto
  have "map (\<lambda>k. sh ! k) [1..<n] = butlast rest"
  proof (rule nth_equalityI)
    show "length (map ((!) sh) [1..<n]) = length (butlast rest)"
      using r by simp
  next
    fix i assume "i < length (map ((!) sh) [1..<n])"
    then show "map ((!) sh) [1..<n] ! i = butlast rest ! i"
      using r sh by (simp add: nth_butlast)
  qed
  moreover have "sh ! n = last rest"
    using sh r rest assms(2) by (simp add: last_conv_nth)
  ultimately show ?thesis using sh rest by simp
qed

lemma prod_list_rotation:
  "rest \<noteq> [] \<Longrightarrow> prod_list (a # last rest # butlast rest) = prod_list (a # rest :: int list)"
proof -
  assume "rest \<noteq> []"
  then have "rest = butlast rest @ [last rest]" by simp
  then have "prod_list rest = prod_list (butlast rest) * last rest"
    by (metis prod_list.append prod_list.Cons prod_list.Nil mult_1_right)
  then show ?thesis by (simp add: mult.commute)
qed

lemma transpose_nd_rotation:
  assumes "andim a = Suc n" "0 < n"
  shows "\<exists>b. transpose_nd a (0 # n # [1..<n]) = Inr b \<and>
             shape b = hd (shape a) # last (shape a) # butlast (tl (shape a)) \<and>
             (wf_ndarray a \<longrightarrow> wf_ndarray b)"
proof -
  let ?sh = "hd (shape a) # last (shape a) # butlast (tl (shape a))"
  from assms have len: "length (shape a) = Suc n" by (simp add: andim_def)
  have sh: "map (\<lambda>k. shape a ! k) (0 # n # [1..<n]) = ?sh"
    using map_nth_rotation [OF len assms(2)] .
  from len obtain d rest where sa: "shape a = d # rest" and r: "length rest = n"
    by (cases "shape a") auto
  with assms(2) have rest: "rest \<noteq> []" by auto
  have "?sh = d # last rest # butlast rest"
    using sa rest by simp
  then have "prod_list ?sh = prod_list (d # rest)"
    using prod_list_rotation [OF rest, of d] by (simp only:)
  then have prod: "prod_list ?sh = asize a"
    by (simp only: asize_def sa)
  have nonneg: "list_all (\<lambda>d. 0 \<le> d) (shape a) \<Longrightarrow> list_all (\<lambda>d. 0 \<le> d) ?sh"
    using sa rest by (auto simp: list_all_iff dest: in_set_butlastD)
  define b where "b = \<lparr>shape = ?sh,
     data = map (\<lambda>j. data a ! ravel_F (shape a)
               (map (\<lambda>d. unravel_F ?sh j ! index_of (0 # n # [1..<n]) d) [0..<andim a]))
            [0..<nat (prod_list ?sh)]\<rparr>"
  have "transpose_nd a (0 # n # [1..<n]) = Inr b"
    unfolding transpose_nd_def b_def sh [symmetric] Let_def
    using sort_rotation [OF assms(2)] assms(1) by simp
  moreover have "shape b = ?sh" by (simp add: b_def)
  moreover have "wf_ndarray a \<longrightarrow> wf_ndarray b"
  proof
    assume wf: "wf_ndarray a"
    then have "0 \<le> asize a" by (simp add: wf_ndarray_def)
    with prod nonneg wf show "wf_ndarray b"
      by (simp add: wf_ndarray_def b_def asize_def del: prod_list.Cons)
  qed
  ultimately show ?thesis by blast
qed

section \<open>The stand-ins meet the contracts\<close>

lemma stub_fit_coeffs:
  assumes "wf_ndarray y" "shape y = [rows, n]" "2 \<le> n"
  shows "wf_ndarray \<lparr>shape = [rows * (n - 1), 1], data = take (nat (rows * (n - 1))) (data y)\<rparr>"
proof -
  from assms have rows: "0 \<le> rows" and len: "int (length (data y)) = rows * n"
    by (simp_all add: wf_ndarray_def asize_def)
  from rows assms(3) have "rows * (n - 1) \<le> rows * n"
    by (intro mult_left_mono) simp_all
  with len have "nat (rows * (n - 1)) \<le> length (data y)" by linarith
  moreover from rows assms(3) have "0 \<le> rows * (n - 1)" by simp
  ultimately show ?thesis
    by (simp add: wf_ndarray_def asize_def min_def)
qed

lemma solver_contract_stub: "solver_contract stub_fit"
  unfolding solver_contract_def
proof (intro allI impI)
  fix x y w s r rows
  assume h: "stub_fit x y w s = Inr r \<and> andim x = 1 \<and> 2 \<le> asize x \<and>
        wf_ndarray y \<and> shape y = [rows, asize x]"
  then have r: "spline1 r = \<lparr>breaks1 = x,
       coeffs1 = \<lparr>shape = [rows * (asize x - 1), 1],
                  data = take (nat (rows * (asize x - 1))) (data y)\<rparr>,
       pieces1 = asize x - 1, order1 = 1\<rparr>"
    by (auto simp: stub_fit_def Let_def)
  from h have "wf_ndarray (coeffs1 (spline1 r))"
    unfolding r using stub_fit_coeffs [of y rows "asize x"] by simp
  then show "breaks1 (spline1 r) = x \<and>
          pieces1 (spline1 r) = asize x - 1 \<and>
          0 \<le> order1 (spline1 r) \<and>
          wf_ndarray (coeffs1 (spline1 r)) \<and>
          shape (coeffs1 (spline1 r)) = [rows * pieces1 (spline1 r), order1 (spline1 r)]"
    by (simp add: r)
qed

lemma evaluator_contract_stub: "evaluator_contract stub_evaluate"
  unfolding evaluator_contract_def
proof (intro allI impI)
  fix b c rows sh x ordr
  assume h: "andim b = 1 \<and> 2 \<le> asize b \<and>
        wf_ndarray c \<and> shape c = [rows * (asize b - 1), ordr] \<and>
        andim x = 1 \<and> 2 \<le> asize x"
  then have "0 \<le> rows * (asize b - 1)" "0 < asize b - 1"
    by (auto simp: wf_ndarray_def)
  then have rows: "0 \<le> rows"
    by (simp add: zero_le_mult_iff)
  let ?v = "\<lparr>shape = [rows, asize x],
          data = concat (replicate (nat (asize x))
                   (take (nat rows) (data c @ replicate (nat rows) NaN)))\<rparr>"
  have "wf_ndarray ?v"
    using rows h
    by (simp add: wf_ndarray_def asize_def length_concat sum_list_replicate min_def)
  then show "\<exists>v. stub_evaluate b c rows sh x = Inr v \<and> wf_ndarray v \<and>
      shape v = [rows, asize x]"
    by (simp add: stub_evaluate_def)
qed


lemma wf_grid_y: "wf_ndarray grid_y"
  by (simp add: wf_ndarray_def grid_y_def asize_def)

lemma grid_fit_run:
  "NdGridCubicSmoothingSpline_init stub_fit grid_x grid_y PyNone grid_smooth = Inr grid_fit"
  by code_simp

section \<open>Properties of the fit\<close>

lemma getitem_Inr: "getitem xs i = Inr x \<longleftrightarrow> i < length xs \<and> x = xs ! i"
  by (auto simp: getitem_def)

lemma prod_list_nonneg: "list_all (\<lambda>d. (0::int) \<le> d) ds \<Longrightarrow> 0 \<le> prod_list ds"
  by (induction ds) auto

lemma make_spline_step:
  assumes contract: "solver_contract fit"
    and i: "i < length xd" "2 \<le> asize (xd ! i)" "andim (xd ! i) = 1"
    and wf: "wf_ndarray yd"
    and pre: "list_all (\<lambda>d. 0 \<le> d) pre" "length pre = n" "0 < n"
    and run: "make_spline_loop fit xd ws n sm (i # axes) (pre @ [asize (xd ! i)], yd, acc) = Inr res"
  shows "\<exists>(r::CubicSmoothingSpline) c yd1. 0 \<le> c \<and> (asize (xd ! i) - 1) dvd c \<and> wf_ndarray yd1 \<and>
           shape yd1 = (if 1 < n then hd pre # c # tl pre else pre @ [c]) \<and>
           make_spline_loop fit xd ws n sm axes (shape yd1, yd1, acc @ [smooth1 r]) = Inr res"
proof -
  let ?x = "xd ! i"
  from run obtain ydata_i w s r yd' where
    yi: "reshape_F yd [prod_list pre, asize ?x] = Inr ydata_i"
    and w: "getitem ws i = Inr w" and s: "getitem sm i = Inr s"
    and fit: "fit ?x ydata_i w s = Inr r"
    and yd': "reshape_F (coeffs1 (spline1 r)) (pre @ [pieces1 (spline1 r) * order1 (spline1 r)]) = Inr yd'"
    and rest: "(if 1 < n then bind_e (transpose_nd yd' (0 # n # [1..<n]))
                 (\<lambda>yd''. make_spline_loop fit xd ws n sm axes (shape yd'', yd'', acc @ [smooth1 r]))
               else make_spline_loop fit xd ws n sm axes
                 (pre @ [pieces1 (spline1 r) * order1 (spline1 r)], yd', acc @ [smooth1 r])) = Inr res"
    using i(1) by (auto simp: bind_e_Inr_iff getitem_Inr Let_def)
  let ?c = "pieces1 (spline1 r) * order1 (spline1 r)"
  have nn: "list_all (\<lambda>d. 0 \<le> d) [prod_list pre, asize ?x]"
    using pre(1) i(2) by (simp add: prod_list_nonneg)
  from yi have yi_eq: "ydata_i = \<lparr>shape = [prod_list pre, asize ?x], data = data yd\<rparr>"
    and yi_size: "prod_list [prod_list pre, asize ?x] = asize yd"
    by (auto simp: reshape_F_nonneg [OF nn] split: if_splits)
  have "wf_ndarray ydata_i"
    unfolding yi_eq using wf nn yi_size by (rule wf_reshape)
  moreover have "shape ydata_i = [prod_list pre, asize ?x]"
    by (simp add: yi_eq)
  ultimately have p: "pieces1 (spline1 r) = asize ?x - 1"
    and o: "0 \<le> order1 (spline1 r)" and wfc: "wf_ndarray (coeffs1 (spline1 r))"
    using contract fit i(2,3) unfolding solver_contract_def by blast+
  from p o i(2) have c0: "0 \<le> ?c" by simp
  from p have cd: "(asize ?x - 1) dvd ?c" by simp
  have nn': "list_all (\<lambda>d. 0 \<le> d) (pre @ [?c])"
    using pre(1) c0 by simp
  from yd' have eq: "prod_list (pre @ [?c]) = asize (coeffs1 (spline1 r))"
    and yd'_eq: "yd' = \<lparr>shape = pre @ [?c], data = data (coeffs1 (spline1 r))\<rparr>"
    by (auto simp: reshape_F_nonneg [OF nn'] split: if_splits)
  have wf': "wf_ndarray yd'"
    unfolding yd'_eq using wfc nn' eq by (rule wf_reshape)
  have sh': "shape yd' = pre @ [?c]" by (simp add: yd'_eq)
  show ?thesis
  proof (cases "1 < n")
    case True
    have nd: "andim yd' = Suc n" by (simp add: andim_def sh' pre(2))
    from transpose_nd_rotation [OF nd pre(3)] obtain yd'' where
      t: "transpose_nd yd' (0 # n # [1..<n]) = Inr yd''"
      and sh'': "shape yd'' = hd (shape yd') # last (shape yd') # butlast (tl (shape yd'))"
      and wf'': "wf_ndarray yd' \<longrightarrow> wf_ndarray yd''"
      by blast
    from pre(2,3) have ne: "pre \<noteq> []" by auto
    then have "shape yd'' = hd pre # ?c # tl pre"
      by (cases pre) (simp_all add: sh'' sh')
    moreover from rest True t
    have "make_spline_loop fit xd ws n sm axes (shape yd'', yd'', acc @ [smooth1 r]) = Inr res"
      by simp
    ultimately have "0 \<le> ?c \<and> (asize (xd ! i) - 1) dvd ?c \<and> wf_ndarray yd'' \<and>
           shape yd'' = (if 1 < n then hd pre # ?c # tl pre else pre @ [?c]) \<and>
           make_spline_loop fit xd ws n sm axes (shape yd'', yd'', acc @ [smooth1 r]) = Inr res"
      using c0 cd wf' wf'' True by simp
    then show ?thesis by blast
  next
    case False
    with rest have "make_spline_loop fit xd ws n sm axes (shape yd', yd', acc @ [smooth1 r]) = Inr res"
      by (simp add: sh')
    with c0 cd wf' sh' False
    have "0 \<le> ?c \<and> (asize (xd ! i) - 1) dvd ?c \<and> wf_ndarray yd' \<and>
           shape yd' = (if 1 < n then hd pre # ?c # tl pre else pre @ [?c]) \<and>
           make_spline_loop fit xd ws n sm axes (shape yd', yd', acc @ [smooth1 r]) = Inr res"
      by simp
    then show ?thesis by blast
  qed
qed

lemma make_spline_loop_invariant:
  assumes contract: "solver_contract fit"
    and vec: "list_all (\<lambda>v. andim v = 1 \<and> 2 \<le> asize v) xd"
  shows "k \<le> length xd \<Longrightarrow>
     shape yd = 1 # cs @ map asize (take k xd) \<Longrightarrow>
     list_all2 (\<lambda>c x. 0 \<le> c \<and> (asize x - 1) dvd c) cs (drop k xd) \<Longrightarrow>
     wf_ndarray yd \<Longrightarrow>
     make_spline_loop fit xd ws (length xd) sm (rev [0..<k]) (shape yd, yd, acc)
       = Inr (sizey', yd', acc') \<Longrightarrow>
     (\<exists>cs'. shape yd' = 1 # cs' \<and> list_all2 (\<lambda>c x. 0 \<le> c \<and> (asize x - 1) dvd c) cs' xd) \<and>
     wf_ndarray yd' \<and> length acc' = length acc + k"
proof (induction k arbitrary: yd cs acc)
  case 0
  from "0.prems"(5) have "yd' = yd" "acc' = acc" by simp_all
  with "0.prems"(2,3,4) show ?case
    by (intro conjI exI [of _ cs]) simp_all
next
  case (Suc k)
  let ?n = "length xd"
  let ?pre = "1 # cs @ map asize (take k xd)"
  from Suc.prems(1) have k: "k < ?n" by simp
  from vec k have xk: "2 \<le> asize (xd ! k)" "andim (xd ! k) = 1"
    by (simp_all add: list_all_length)
  have sizes: "list_all (\<lambda>d. 0 \<le> d) (map asize (take k xd))"
    using vec by (auto simp: list_all_iff dest!: in_set_takeD)
  have csn: "list_all (\<lambda>d. 0 \<le> d) cs"
    using Suc.prems(3) by (auto simp: list_all_iff list_all2_conv_all_nth in_set_conv_nth)
  have lcs: "length cs = ?n - Suc k"
    using Suc.prems(3) by (auto dest: list_all2_lengthD)
  have pre: "list_all (\<lambda>d. 0 \<le> d) ?pre" "length ?pre = ?n" "0 < ?n"
    using sizes csn lcs k by auto
  have shape: "shape yd = ?pre @ [asize (xd ! k)]"
    using Suc.prems(2) k by (simp add: take_Suc_conv_app_nth)
  from Suc.prems(5) have run: "make_spline_loop fit xd ws ?n sm (k # rev [0..<k])
      (?pre @ [asize (xd ! k)], yd, acc) = Inr (sizey', yd', acc')"
    by (simp add: shape)
  from make_spline_step [OF contract k xk Suc.prems(4) pre run]
  obtain r :: CubicSmoothingSpline and c yd1 where
    c: "0 \<le> c" "(asize (xd ! k) - 1) dvd c" and wf1: "wf_ndarray yd1"
    and sh1: "shape yd1 = (if 1 < ?n then hd ?pre # c # tl ?pre else ?pre @ [c])"
    and run1: "make_spline_loop fit xd ws ?n sm (rev [0..<k]) (shape yd1, yd1, acc @ [smooth1 r])
        = Inr (sizey', yd', acc')"
    by blast
  have sh1': "shape yd1 = 1 # (c # cs) @ map asize (take k xd)"
  proof (cases "1 < ?n")
    case True
    with sh1 show ?thesis by simp
  next
    case False
    with k have "?n = 1" "k = 0" by simp_all
    with lcs sh1 show ?thesis by simp
  qed
  have all2: "list_all2 (\<lambda>c x. 0 \<le> c \<and> (asize x - 1) dvd c) (c # cs) (drop k xd)"
    using c Suc.prems(3) k by (simp add: Cons_nth_drop_Suc [symmetric])
  from Suc.IH [OF _ sh1' all2 wf1 run1] k show ?case by simp
qed

lemma check_ydata_sizes_shape:
  assumes "list_all (\<lambda>v. andim v = 1) xs" "length sh = length xs"
    "check_ydata_sizes sh xs = Inr ()"
  shows "sh = map asize xs"
proof (rule nth_equalityI)
  show "length sh = length (map asize xs)" using assms(2) by simp
next
  fix i assume "i < length sh"
  moreover from assms have "\<forall>k<length xs. sh ! k = asize (xs ! k)"
    by (simp add: check_ydata_sizes_vectors split: if_splits)
  ultimately show "sh ! i = map asize xs ! i" using assms(2) by simp
qed

lemma floordiv_zip_pieces:
  "list_all2 (\<lambda>c x. 0 \<le> c \<and> (asize x - 1) dvd c) cs xd \<Longrightarrow>
   list_all (\<lambda>v. andim v = 1 \<and> 2 \<le> asize v) xd \<Longrightarrow>
     floordiv_zip cs (map (\<lambda>x. asize x - 1) xd)
       = Inr (map2 (\<lambda>c x. c div (asize x - 1)) cs xd)"
  by (induction cs xd rule: list_all2_induct) auto

lemma make_spline_form:
  assumes contract: "solver_contract fit"
    and vec: "list_all (\<lambda>v. andim v = 1 \<and> 2 \<le> asize v) xd"
    and shape: "shape yd = map asize xd" and wfy: "wf_ndarray yd"
    and run: "make_spline fit xd yd ws (length xd) sm = Inr (form, smooth')"
  shows "\<exists>cs. shape (coeffs form) = 1 # cs \<and>
           list_all2 (\<lambda>c x. 0 \<le> c \<and> (asize x - 1) dvd c) cs xd \<and>
           form = \<lparr>breaks = xd, coeffs = coeffs form,
                   pieces = map (\<lambda>x. asize x - 1) xd,
                   order = map2 (\<lambda>c x. c div (asize x - 1)) cs xd,
                   ndim = length xd\<rparr> \<and>
           wf_ndarray (coeffs form) \<and>
           length smooth' = length xd"
proof -
  have nn: "list_all (\<lambda>d. 0 \<le> d) (1 # shape yd)"
    using vec by (auto simp: shape list_all_iff)
  from run obtain yd0 sizey' yd' where
    yd0: "reshape_F yd (1 # shape yd) = Inr yd0"
    and loop: "make_spline_loop fit xd ws (length xd) sm (rev [0..<length xd])
                 (1 # shape yd, yd0, []) = Inr (sizey', yd', smooth')"
    and init: "NdGridSplinePPForm_init xd yd' = Inr form"
    by (auto simp: make_spline_def bind_e_Inr_iff Let_def)
  from yd0 have yd0_eq: "yd0 = \<lparr>shape = 1 # shape yd, data = data yd\<rparr>"
    and "prod_list (1 # shape yd) = asize yd"
    by (auto simp: reshape_F_nonneg [OF nn] split: if_splits)
  with wfy nn have wf0: "wf_ndarray yd0"
    unfolding yd0_eq by (intro wf_reshape)
  have "shape yd0 = 1 # shape yd" by (simp add: yd0_eq)
  then have sh0: "shape yd0 = 1 # [] @ map asize (take (length xd) xd)"
    by (simp add: shape)
  with loop have loop': "make_spline_loop fit xd ws (length xd) sm (rev [0..<length xd])
                 (shape yd0, yd0, []) = Inr (sizey', yd', smooth')"
    by (simp add: shape)
  from make_spline_loop_invariant [OF contract vec _ sh0 _ wf0 loop']
  obtain cs where cs: "shape yd' = 1 # cs"
    "list_all2 (\<lambda>c x. 0 \<le> c \<and> (asize x - 1) dvd c) cs xd"
    and wf: "wf_ndarray yd'" and len: "length smooth' = length xd"
    by auto
  from init cs vec have form: "form = \<lparr>breaks = xd, coeffs = yd',
                   pieces = map (\<lambda>x. asize x - 1) xd,
                   order = map2 (\<lambda>c x. c div (asize x - 1)) cs xd,
                   ndim = length xd\<rparr>"
    by (auto simp: NdGridSplinePPForm_init_def Let_def floordiv_zip_pieces)
  then have "coeffs form = yd'" by simp
  with cs wf len form show ?thesis by auto
qed

text \<open>
  C5. Let the 1-D solver meet its contract and \<open>ydata\<close> be a well-formed array (as
  every NumPy array is). For the object the
  constructor returns, \<open>ndim\<close> of the form is \<open>len(xdata)\<close>, the breaks are the validated
  vectors of \<open>xdata\<close>, and for every axis \<open>k\<close> the form has \<open>pieces[k] = len(xdata[k]) - 1\<close>
  and the extent of \<open>coeffs\<close> along dimension \<open>k + 1\<close>, the one \<open>__init__\<close> pairs with
  axis \<open>k\<close>, is \<open>pieces[k] * order[k]\<close>.
\<close>

theorem fitted_form_invariants:
  assumes "solver_contract fit" and "wf_ndarray yd"
    and "NdGridCubicSmoothingSpline_init fit xd yd ws sm = Inr obj"
  shows "ndim (spline obj) = length (items xd) \<and>
         length (xdata obj) = length (items xd) \<and>
         breaks (spline obj) = xdata obj \<and>
         andim (coeffs (spline obj)) = Suc (ndim (spline obj)) \<and>
         (\<forall>k<ndim (spline obj).
            pieces (spline obj) ! k = asize (xdata obj ! k) - 1 \<and>
            shape (coeffs (spline obj)) ! Suc k
              = pieces (spline obj) ! k * order (spline obj) ! k)"
proof -
  from assms(3) obtain xs y w s form smooth' where
    prep: "prepare_data xd yd ws sm = Inr (xs, y, w, s)"
    and mk: "make_spline fit xs y w (length xs) s = Inr (form, smooth')"
    and obj: "obj = \<lparr>xdata = xs, ydata = y, weights = w, ndim_of = length xs,
                     spline = form, smooth = smooth'\<rparr>"
    by (auto simp: NdGridCubicSmoothingSpline_init_def bind_e_Inr_iff Let_def)
  note p = prepare_data_Inr [OF prep]
  from p(1) have vec: "list_all (\<lambda>v. andim v = 1 \<and> 2 \<le> asize v) xs"
    by (rule ndgrid_prepare_data_sites_Inr)
  from p(1) have len: "length xs = length (items xd)"
    using prepare_sites_loop_Inr [of "items xd" xs]
    by (auto simp: ndgrid_prepare_data_sites_def split: if_splits dest: map_eq_imp_length_eq)
  have sh: "shape y = map asize xs"
    using check_ydata_sizes_shape [OF vectors_1d [OF vec] _ p(4)] p(2,3)
    by (simp add: andim_def)
  from assms(2) p(2) have wfy: "wf_ndarray y" by simp
  from make_spline_form [OF assms(1) vec sh wfy mk] obtain cs where
    cs: "shape (coeffs form) = 1 # cs"
    "list_all2 (\<lambda>c x. 0 \<le> c \<and> (asize x - 1) dvd c) cs xs"
    and form: "form = \<lparr>breaks = xs, coeffs = coeffs form,
                   pieces = map (\<lambda>x. asize x - 1) xs,
                   order = map2 (\<lambda>c x. c div (asize x - 1)) cs xs,
                   ndim = length xs\<rparr>"
    by blast
  from cs(2) have lcs: "length cs = length xs" by (rule list_all2_lengthD)
  have f1: "ndim form = length xs" "breaks form = xs"
    "pieces form = map (\<lambda>x. asize x - 1) xs"
    "order form = map2 (\<lambda>c x. c div (asize x - 1)) cs xs"
    by (subst form, simp)+
  have "\<forall>k<length xs. pieces form ! k = asize (xs ! k) - 1 \<and>
           shape (coeffs form) ! Suc k = pieces form ! k * order form ! k"
  proof (intro allI impI)
    fix k assume k: "k < length xs"
    with cs(2) have "(asize (xs ! k) - 1) dvd cs ! k"
      by (simp add: list_all2_conv_all_nth)
    with k lcs show "pieces form ! k = asize (xs ! k) - 1 \<and>
           shape (coeffs form) ! Suc k = pieces form ! k * order form ! k"
      by (simp add: f1 cs(1))
  qed
  with f1 len lcs cs(1) show ?thesis
    by (simp add: obj andim_def)
qed

theorem fitted_form_invariants_witness:
  "solver_contract stub_fit \<and> wf_ndarray grid_y \<and>
   NdGridCubicSmoothingSpline_init stub_fit grid_x grid_y PyNone grid_smooth = Inr grid_fit \<and>
   ndim (spline grid_fit) = length (items grid_x) \<and>
   ndim (spline grid_fit) = 2 \<and>
   pieces (spline grid_fit) ! 0 = asize (xdata grid_fit ! 0) - 1 \<and>
   shape (coeffs (spline grid_fit)) ! Suc 0
     = pieces (spline grid_fit) ! 0 * order (spline grid_fit) ! 0 \<and>
   pieces (spline grid_fit) ! 1 = asize (xdata grid_fit ! 1) - 1 \<and>
   shape (coeffs (spline grid_fit)) ! Suc 1
     = pieces (spline grid_fit) ! 1 * order (spline grid_fit) ! 1"
proof -
  have n: "ndim (spline grid_fit) = 2" by (simp add: grid_fit_def)
  from fitted_form_invariants [OF solver_contract_stub wf_grid_y grid_fit_run]
  have len: "ndim (spline grid_fit) = length (items grid_x)"
    and all: "\<forall>k<ndim (spline grid_fit).
      pieces (spline grid_fit) ! k = asize (xdata grid_fit ! k) - 1 \<and>
      shape (coeffs (spline grid_fit)) ! Suc k
        = pieces (spline grid_fit) ! k * order (spline grid_fit) ! k"
    by blast+
  from all n have "pieces (spline grid_fit) ! 0 = asize (xdata grid_fit ! 0) - 1 \<and>
      shape (coeffs (spline grid_fit)) ! Suc 0
        = pieces (spline grid_fit) ! 0 * order (spline grid_fit) ! 0"
    and "pieces (spline grid_fit) ! 1 = asize (xdata grid_fit ! 1) - 1 \<and>
      shape (coeffs (spline grid_fit)) ! Suc 1
        = pieces (spline grid_fit) ! 1 * order (spline grid_fit) ! 1"
    by simp_all
  with solver_contract_stub wf_grid_y grid_fit_run len n show ?thesis by blast
qed

text \<open>
  The order of the resolved smoothing parameters. The loop visits the axes from the last
  to the first and appends \<open>s.smooth\<close> at each visit, so with a solver that reports the
  requested parameter the returned tuple is the requested sequence reversed; its length
  is the number of axes.
\<close>

lemma make_spline_loop_smooth:
  assumes echo: "\<forall>x y w f r. fit x y w (PyFloat f) = Inr r \<longrightarrow> smooth1 r = f"
  shows "make_spline_loop fit xd ws n (map PyFloat fs) axes (sizey, yd, acc)
           = Inr (sizey', yd', acc') \<Longrightarrow>
         acc' = acc @ map (\<lambda>i. fs ! i) axes"
proof (induction axes arbitrary: sizey yd acc)
  case Nil
  then show ?case by simp
next
  case (Cons i axes)
  from Cons.prems obtain ydata_i x w r sizey1 yd1 where
    i: "i < length fs" and fit: "fit x ydata_i w (PyFloat (fs ! i)) = Inr r"
    and rest: "make_spline_loop fit xd ws n (map PyFloat fs) axes (sizey1, yd1, acc @ [smooth1 r])
        = Inr (sizey', yd', acc')"
    by (auto simp: bind_e_Inr_iff getitem_Inr Let_def split: if_splits)
  from echo fit have "smooth1 r = fs ! i" by blast
  with Cons.IH [OF rest] show ?case by simp
qed

lemma make_spline_smooth_reversed:
  assumes echo: "\<forall>x y w f r. fit x y w (PyFloat f) = Inr r \<longrightarrow> smooth1 r = f"
    and run: "make_spline fit xd yd ws (length fs) (map PyFloat fs) = Inr (form, smooth')"
  shows "smooth' = rev fs"
proof -
  from run obtain sizey0 yd0 sizey' yd' where
    "make_spline_loop fit xd ws (length fs) (map PyFloat fs) (rev [0..<length fs])
       (sizey0, yd0, []) = Inr (sizey', yd', smooth')"
    by (auto simp: make_spline_def bind_e_Inr_iff Let_def)
  from make_spline_loop_smooth [OF echo this]
  have "smooth' = map (\<lambda>i. fs ! i) (rev [0..<length fs])" by simp
  also have "\<dots> = rev (map (\<lambda>i. fs ! i) [0..<length fs])" by (simp add: rev_map)
  also have "\<dots> = rev fs" by (simp add: map_nth)
  finally show ?thesis .
qed

lemma make_spline_smooth_length:
  assumes "make_spline fit xd yd ws n sm = Inr (form, smooth')"
  shows "length smooth' = n"
proof -
  have loop: "make_spline_loop fit xd ws n sm axes (sizey, y, acc) = Inr (sizey', y', acc')
      \<Longrightarrow> length acc' = length acc + length axes"
    for axes sizey y acc sizey' y' acc'
  proof (induction axes arbitrary: sizey y acc)
    case Nil
    then show ?case by simp
  next
    case (Cons i axes)
    from Cons.prems obtain sizey1 y1 a where
      "make_spline_loop fit xd ws n sm axes (sizey1, y1, acc @ [a]) = Inr (sizey', y', acc')"
      by (auto simp: bind_e_Inr_iff Let_def split: if_splits)
    from Cons.IH [OF this] show ?case by simp
  qed
  from assms obtain sizey0 yd0 sizey' yd' where
    "make_spline_loop fit xd ws n sm (rev [0..<n]) (sizey0, yd0, []) = Inr (sizey', yd', smooth')"
    by (auto simp: make_spline_def bind_e_Inr_iff Let_def)
  from loop [OF this] show ?thesis by simp
qed

text \<open>
  C1 at \<open>smooth = [0.25, 0.75]\<close> on the grid of two axes: axis 0 is fitted with \<open>0.25\<close>
  and axis 1 with \<open>0.75\<close>, and the tuple the object holds is \<open>(0.75, 0.25)\<close>: entry
  \<open>0\<close> is the parameter of axis 1.
\<close>

theorem smooth_tuple_reversed:
  "NdGridCubicSmoothingSpline_init stub_fit grid_x grid_y PyNone
     (PyList [PyFloat (Finite (1 / 4)), PyFloat (Finite (3 / 4))]) = Inr grid_fit \<and>
   smooth grid_fit = [Finite (3 / 4), Finite (1 / 4)] \<and>
   smooth grid_fit ! 0 \<noteq> Finite (1 / 4)"
  by code_simp

section \<open>Properties of the evaluation\<close>

lemma evaluate_step:
  assumes ev: "evaluator_contract ev"
    and n: "ndim self = n"
    and b: "getitem (breaks self) i = Inr b" "andim b = 1" "2 \<le> asize b"
    and p: "getitem (pieces self) i = Inr (asize b - 1)"
    and o: "getitem (order self) i = Inr (c div (asize b - 1))"
    and x: "getitem xi i = Inr x" "andim x = 1" "2 \<le> asize x"
    and m: "getitem nsize i = Inr (asize x)"
    and yi: "wf_ndarray yi" "shape yi = pre @ [c]" "length pre = n" "0 < n"
      "(asize b - 1) dvd c"
  shows "\<exists>yi'. wf_ndarray yi' \<and> shape yi' = hd pre # asize x # tl pre \<and>
           evaluate_loop ev self xi nsize (i # axes) (yi, shape yi)
             = evaluate_loop ev self xi nsize axes (yi', shape yi')"
proof -
  let ?R = "prod_list pre"
  let ?p = "asize b - 1"
  let ?o = "c div ?p"
  from yi(1,2) have nn: "list_all (\<lambda>d. 0 \<le> d) pre" and c0: "0 \<le> c"
    and size: "asize yi = ?R * c"
    by (simp_all add: wf_ndarray_def asize_def)
  from b(3) have p0: "0 < ?p" by simp
  from yi(5) have po: "?p * ?o = c" by simp
  from c0 p0 have o0: "0 \<le> ?o" by (simp add: pos_imp_zdiv_nonneg_iff)
  have R0: "0 \<le> ?R" using nn by (rule prod_list_nonneg)
  have tk: "take n (shape yi) = pre" using yi(2,3) by simp
  have nn1: "list_all (\<lambda>d. 0 \<le> d) [?R * ?p, ?o]"
    using R0 p0 o0 by simp
  have "prod_list [?R * ?p, ?o] = asize yi"
    using po by (simp add: size mult.assoc)
  then have r1: "reshape_F yi [?R * ?p, ?o] = Inr \<lparr>shape = [?R * ?p, ?o], data = data yi\<rparr>"
    and wf1: "wf_ndarray \<lparr>shape = [?R * ?p, ?o], data = data yi\<rparr>"
    using reshape_F_nonneg [OF nn1, of yi] wf_reshape [OF yi(1) nn1] by simp_all
  let ?c' = "\<lparr>shape = [?R * ?p, ?o], data = data yi\<rparr>"
  from ev b(2,3) wf1 x(2,3) obtain v where
    v: "ev b ?c' ?R [?R, asize x] x = Inr v" and wfv: "wf_ndarray v"
    and shv: "shape v = [?R, asize x]"
    unfolding evaluator_contract_def
    by (metis ndarray.select_convs(1))
  have nn2: "list_all (\<lambda>d. 0 \<le> d) (pre @ [asize x])"
    using nn x(3) by simp
  have "prod_list (pre @ [asize x]) = asize v"
    by (simp add: asize_def shv)
  then have r2: "reshape_F v (pre @ [asize x]) = Inr \<lparr>shape = pre @ [asize x], data = data v\<rparr>"
    and wf2: "wf_ndarray \<lparr>shape = pre @ [asize x], data = data v\<rparr>"
    using reshape_F_nonneg [OF nn2, of v] wf_reshape [OF wfv nn2] by simp_all
  let ?y2 = "\<lparr>shape = pre @ [asize x], data = data v\<rparr>"
  have nd: "andim ?y2 = Suc n" by (simp add: andim_def yi(3))
  from transpose_nd_rotation [OF nd yi(4)] wf2 obtain y3 where
    t: "transpose_nd ?y2 (0 # n # [1..<n]) = Inr y3" and wf3: "wf_ndarray y3"
    and sh3: "shape y3 = hd (shape ?y2) # last (shape ?y2) # butlast (tl (shape ?y2))"
    by blast
  from yi(3,4) have "pre \<noteq> []" by auto
  then have sh3': "shape y3 = hd pre # asize x # tl pre"
    by (cases pre) (simp_all add: sh3)
  have "evaluate_loop ev self xi nsize (i # axes) (yi, shape yi)
             = evaluate_loop ev self xi nsize axes (y3, shape y3)"
    using t by (simp add: n tk p o r1 b(1) x(1) v m r2 Let_def)
  with wf3 sh3' show ?thesis by blast
qed


lemma evaluate_loop_shape:
  assumes ev: "evaluator_contract ev"
    and vec: "list_all (\<lambda>v. andim v = 1 \<and> 2 \<le> asize v) xd"
    and cs: "list_all2 (\<lambda>c x. 0 \<le> c \<and> (asize x - 1) dvd c) cs xd"
    and self: "self = \<lparr>breaks = xd, coeffs = cf,
                   pieces = map (\<lambda>x. asize x - 1) xd,
                   order = map2 (\<lambda>c x. c div (asize x - 1)) cs xd,
                   ndim = length xd\<rparr>"
    and qs: "list_all (\<lambda>v. andim v = 1 \<and> 2 \<le> asize v) qs" "length qs = length xd"
  shows "k \<le> length xd \<Longrightarrow> wf_ndarray yi \<Longrightarrow>
     shape yi = 1 # map asize (drop k qs) @ take k cs \<Longrightarrow>
     \<exists>yi'. evaluate_loop ev self qs (map asize qs) (rev [0..<k]) (yi, shape yi)
             = Inr (yi', shape yi') \<and>
           wf_ndarray yi' \<and> shape yi' = 1 # map asize qs"
proof (induction k arbitrary: yi)
  case 0
  then show ?case by simp
next
  case (Suc k)
  let ?n = "length xd"
  from Suc.prems(1) have k: "k < ?n" by simp
  from cs have lcs: "length cs = ?n" by (rule list_all2_lengthD)
  let ?b = "xd ! k" and ?x = "qs ! k"
  let ?pre = "1 # map asize (drop (Suc k) qs) @ take k cs"
  from vec k have b: "andim ?b = 1" "2 \<le> asize ?b"
    by (simp_all add: list_all_length)
  from qs k have x: "andim ?x = 1" "2 \<le> asize ?x"
    by (simp_all add: list_all_length)
  from cs k have dvd: "(asize ?b - 1) dvd cs ! k"
    by (simp add: list_all2_conv_all_nth)
  have g: "getitem (breaks self) k = Inr ?b"
    "getitem (pieces self) k = Inr (asize ?b - 1)"
    "getitem (order self) k = Inr (cs ! k div (asize ?b - 1))"
    "getitem qs k = Inr ?x" "getitem (map asize qs) k = Inr (asize ?x)"
    using k lcs qs(2) by (simp_all add: self getitem_def)
  have n: "ndim self = ?n" by (simp add: self)
  have sh: "shape yi = ?pre @ [cs ! k]"
    using Suc.prems(3) k lcs by (simp add: take_Suc_conv_app_nth)
  have lp: "length ?pre = ?n" using k lcs qs(2) by simp
  have n0: "0 < ?n" using k by auto
  from evaluate_step [OF ev n g(1) b g(2) g(3) g(4) x g(5) Suc.prems(2) sh lp n0 dvd,
      of "rev [0..<k]"]
  obtain y1 where wf1: "wf_ndarray y1"
    and sh1: "shape y1 = hd ?pre # asize ?x # tl ?pre"
    and run: "evaluate_loop ev self qs (map asize qs) (k # rev [0..<k]) (yi, shape yi)
             = evaluate_loop ev self qs (map asize qs) (rev [0..<k]) (y1, shape y1)"
    by blast
  have sh1': "shape y1 = 1 # map asize (drop k qs) @ take k cs"
    using k qs(2) by (simp add: sh1 Cons_nth_drop_Suc [symmetric])
  from Suc.IH [OF _ wf1 sh1'] k run show ?case by simp
qed

lemma evaluate_form_shape:
  assumes ev: "evaluator_contract ev"
    and vec: "list_all (\<lambda>v. andim v = 1 \<and> 2 \<le> asize v) xd"
    and cs: "list_all2 (\<lambda>c x. 0 \<le> c \<and> (asize x - 1) dvd c) cs xd"
    and self: "self = \<lparr>breaks = xd, coeffs = cf,
                   pieces = map (\<lambda>x. asize x - 1) xd,
                   order = map2 (\<lambda>c x. c div (asize x - 1)) cs xd,
                   ndim = length xd\<rparr>"
    and cf: "wf_ndarray cf" "shape cf = 1 # cs"
    and qs: "list_all (\<lambda>v. andim v = 1 \<and> 2 \<le> asize v) qs" "length qs = length xd"
  shows "\<exists>r. fst (evaluate ev self qs) = Inr r \<and> shape r = map asize qs"
proof -
  from cs have lcs: "length cs = length xd" by (rule list_all2_lengthD)
  have sh: "shape cf = 1 # map asize (drop (length xd) qs) @ take (length xd) cs"
    using cf(2) lcs qs(2) by simp
  from evaluate_loop_shape [OF ev vec cs self qs _ cf(1) sh]
  obtain yi' where
    loop: "evaluate_loop ev self qs (map asize qs) (rev [0..<length xd]) (cf, shape cf)
             = Inr (yi', shape yi')"
    and wf: "wf_ndarray yi'" and sh': "shape yi' = 1 # map asize qs"
    by auto
  have nn: "list_all (\<lambda>d. 0 \<le> d) (map asize qs)"
    using qs(1) by (auto simp: list_all_iff)
  have "prod_list (map asize qs) = asize yi'"
    by (simp add: asize_def sh')
  then have "reshape_F yi' (map asize qs) = Inr \<lparr>shape = map asize qs, data = data yi'\<rparr>"
    by (simp add: reshape_F_nonneg [OF nn])
  moreover have "coeffs self = cf" "ndim self = length xd" by (simp_all add: self)
  ultimately have "fst (evaluate ev self qs) = Inr \<lparr>shape = map asize qs, data = data yi'\<rparr>"
    using loop by (simp add: evaluate_def Let_def)
  then show ?thesis by simp
qed


text \<open>
  C4. Let the 1-D solver and the 1-D evaluator meet their contracts and \<open>ydata\<close> be a
  well-formed array. For the object the constructor returns and a query that passes the validator
  with one vector per axis, \<open>__call__\<close> returns the tensor \<open>evaluate\<close> computes, and its
  shape is \<open>(len(query[0]), ..., len(query[ndim - 1]))\<close>.
\<close>

theorem evaluate_shape:
  assumes "solver_contract fit" and "evaluator_contract ev" and "wf_ndarray yd"
    and "NdGridCubicSmoothingSpline_init fit xd yd ws sm = Inr obj"
    and "ndgrid_prepare_data_sites xi = Inr qs" and "length qs = ndim_of obj"
  shows "\<exists>r. NdGridCubicSmoothingSpline_call ev obj xi = Inr r \<and>
             fst (evaluate ev (spline obj) qs) = Inr r \<and>
             shape r = map asize qs"
proof -
  from assms(4) obtain xs y w s form smooth' where
    prep: "prepare_data xd yd ws sm = Inr (xs, y, w, s)"
    and mk: "make_spline fit xs y w (length xs) s = Inr (form, smooth')"
    and obj: "obj = \<lparr>xdata = xs, ydata = y, weights = w, ndim_of = length xs,
                     spline = form, smooth = smooth'\<rparr>"
    by (auto simp: NdGridCubicSmoothingSpline_init_def bind_e_Inr_iff Let_def)
  note p = prepare_data_Inr [OF prep]
  from p(1) have vec: "list_all (\<lambda>v. andim v = 1 \<and> 2 \<le> asize v) xs"
    by (rule ndgrid_prepare_data_sites_Inr)
  have sh: "shape y = map asize xs"
    using check_ydata_sizes_shape [OF vectors_1d [OF vec] _ p(4)] p(2,3)
    by (simp add: andim_def)
  from assms(3) p(2) have wfy: "wf_ndarray y" by simp
  from make_spline_form [OF assms(1) vec sh wfy mk] obtain cs where
    cs: "shape (coeffs form) = 1 # cs"
    "list_all2 (\<lambda>c x. 0 \<le> c \<and> (asize x - 1) dvd c) cs xs"
    and form: "form = \<lparr>breaks = xs, coeffs = coeffs form,
                   pieces = map (\<lambda>x. asize x - 1) xs,
                   order = map2 (\<lambda>c x. c div (asize x - 1)) cs xs,
                   ndim = length xs\<rparr>"
    and wfc: "wf_ndarray (coeffs form)"
    by blast
  from assms(5) have qs: "list_all (\<lambda>v. andim v = 1 \<and> 2 \<le> asize v) qs"
    by (rule ndgrid_prepare_data_sites_Inr)
  from assms(6) have lq: "length qs = length xs" by (simp add: obj)
  from evaluate_form_shape [OF assms(2) vec cs(2) form wfc cs(1) qs lq]
  obtain r where r: "fst (evaluate ev form qs) = Inr r" "shape r = map asize qs"
    by blast
  then have "NdGridCubicSmoothingSpline_call ev obj xi = Inr r"
    using assms(5) lq by (simp add: NdGridCubicSmoothingSpline_call_def obj)
  with r show ?thesis by (simp add: obj)
qed

theorem evaluate_shape_witness:
  "solver_contract stub_fit \<and> evaluator_contract stub_evaluate \<and> wf_ndarray grid_y \<and>
   NdGridCubicSmoothingSpline_init stub_fit grid_x grid_y PyNone grid_smooth = Inr grid_fit \<and>
   ndgrid_prepare_data_sites grid_x = Inr grid_sites \<and>
   length grid_sites = ndim_of grid_fit \<and>
   (\<exists>r. NdGridCubicSmoothingSpline_call stub_evaluate grid_fit grid_x = Inr r \<and>
        fst (evaluate stub_evaluate (spline grid_fit) grid_sites) = Inr r \<and>
        shape r = map asize grid_sites) \<and>
   map asize grid_sites = [4, 3]"
proof -
  have len: "length grid_sites = ndim_of grid_fit"
    by (simp add: grid_sites_def grid_fit_def)
  have sizes: "map asize grid_sites = [4, 3]"
    by (simp add: grid_sites_def asize_def)
  show ?thesis
    using solver_contract_stub evaluator_contract_stub wf_grid_y grid_fit_run grid_x_sites
      len sizes
      evaluate_shape [OF solver_contract_stub evaluator_contract_stub wf_grid_y grid_fit_run
        grid_x_sites len]
    by simp
qed

section \<open>Evaluation in memory\<close>

text \<open>Views commute with the operations on values.\<close>

lemma deref_reshape_v:
  "map_sum id (deref h) (reshape_v v ns) = reshape_F (deref h v) ns"
  by (simp add: reshape_v_def reshape_F_def deref_def asize_def Let_def)

lemma transpose_nd_permute:
  "transpose_nd a axes =
     (if sort axes \<noteq> [0..<andim a] then Inl ValueError
      else Inr \<lparr>shape = map (\<lambda>k. shape a ! k) axes,
                 data = permute_data (shape a) axes (data a)\<rparr>)"
  by (simp add: transpose_nd_def permute_data_def Let_def andim_def)

lemma deref_transpose_v:
  "map_sum id (deref h) (transpose_v v axes) = transpose_nd (deref h v) axes"
  by (simp add: transpose_nd_permute transpose_v_def deref_def andim_def)

lemma getitem_map: "getitem (map f xs) i = map_sum id f (getitem xs i)"
  by (simp add: getitem_def)

lemma asize_deref: "asize (deref h v) = vsize v"
  by (simp add: asize_def deref_def vsize_def)

lemma deref_same: "h' ! vbase v = h ! vbase v \<Longrightarrow> deref h' v = deref h v"
  by (simp add: deref_def)

lemma frame_instance:
  assumes fr: "evaluator_frame ev_h ev"
    and a: "vbase b < length h" "vbase c < length h" "vbase x < length h"
    and run: "ev_h h b c n sh x = (h', r)"
  shows "length h \<le> length h' \<and>
         (\<forall>a<length h. a \<noteq> vbase c \<longrightarrow> h' ! a = h ! a) \<and>
         map_sum id (deref h') r = ev (deref h b) (deref h c) n sh (deref h x) \<and>
         (case r of Inl e \<Rightarrow> True | Inr v \<Rightarrow> length h \<le> vbase v \<and> vbase v < length h')"
proof -
  from fr have "vbase b < length h \<and> vbase c < length h \<and> vbase x < length h \<longrightarrow>
          (case ev_h h b c n sh x of
             (h', r) \<Rightarrow>
               length h \<le> length h' \<and>
               (\<forall>a<length h. a \<noteq> vbase c \<longrightarrow> h' ! a = h ! a) \<and>
               map_sum id (deref h') r = ev (deref h b) (deref h c) n sh (deref h x) \<and>
               (case r of Inl e \<Rightarrow> True
                | Inr v \<Rightarrow> length h \<le> vbase v \<and> vbase v < length h'))"
    unfolding evaluator_frame_def by (elim allE)
  moreover have "vbase b < length h \<and> vbase c < length h \<and> vbase x < length h"
    using a by (intro conjI)
  ultimately have "case ev_h h b c n sh x of
             (h', r) \<Rightarrow>
               length h \<le> length h' \<and>
               (\<forall>a<length h. a \<noteq> vbase c \<longrightarrow> h' ! a = h ! a) \<and>
               map_sum id (deref h') r = ev (deref h b) (deref h c) n sh (deref h x) \<and>
               (case r of Inl e \<Rightarrow> True
                | Inr v \<Rightarrow> length h \<le> vbase v \<and> vbase v < length h')"
    by (rule mp)
  then show ?thesis unfolding run prod.case .
qed

lemma frame_step:
  assumes fr: "evaluator_frame ev_h ev"
    and alloc: "vbase b < n0" "vbase x < n0"
    and inv: "n0 \<le> vbase c" "vbase c < length h" "\<forall>a<n0. h ! a = h0 ! a"
    and run: "ev_h h b c n sh x = (h', r)"
  shows "length h \<le> length h'" and "\<forall>a<n0. h' ! a = h0 ! a"
    and "map_sum id (deref h') r = ev (deref h0 b) (deref h c) n sh (deref h0 x)"
    and "r = Inr v \<Longrightarrow> n0 \<le> vbase v \<and> vbase v < length h'"
proof -
  from inv(1,2) have l0: "n0 \<le> length h" by linarith
  with alloc have a: "vbase b < length h" "vbase x < length h" by linarith+
  note f = frame_instance [OF fr a(1) inv(2) a(2) run]
  from f show len: "length h \<le> length h'" by (rule conjunct1)
  from f have same: "\<forall>a<length h. a \<noteq> vbase c \<longrightarrow> h' ! a = h ! a"
    by (elim conjE)
  from f have res: "map_sum id (deref h') r = ev (deref h b) (deref h c) n sh (deref h x)"
    by (elim conjE)
  from f have fresh: "case r of Inl e \<Rightarrow> True | Inr v \<Rightarrow> length h \<le> vbase v \<and> vbase v < length h'"
    by (elim conjE)
  show "\<forall>a<n0. h' ! a = h0 ! a"
  proof (intro allI impI)
    fix a assume a: "a < n0"
    with inv(1) l0 have "a < length h" "a \<noteq> vbase c" by linarith+
    with same have "h' ! a = h ! a" by blast
    also from inv(3) a have "h ! a = h0 ! a" by blast
    finally show "h' ! a = h0 ! a" .
  qed
  from inv(3) alloc have eb: "h ! vbase b = h0 ! vbase b" and ex: "h ! vbase x = h0 ! vbase x"
    by blast+
  have "deref h b = deref h0 b" by (rule deref_same) (rule eb)
  moreover have "deref h x = deref h0 x" by (rule deref_same) (rule ex)
  ultimately have "deref h b = deref h0 b" "deref h x = deref h0 x" .
  with res show "map_sum id (deref h') r = ev (deref h0 b) (deref h c) n sh (deref h0 x)"
    by (simp only:)
  assume "r = Inr v"
  with fresh have "length h \<le> vbase v \<and> vbase v < length h'" by simp
  with l0 show "n0 \<le> vbase v \<and> vbase v < length h'" by linarith
qed

lemma bind_e_map_sum: "bind_e (map_sum id f m) g = bind_e m (\<lambda>x. g (f x))"
  by (cases m) auto

lemma bind_e_assoc: "bind_e (bind_e m f) g = bind_e m (\<lambda>x. bind_e (f x) g)"
  by (cases m) auto

lemma getitem_set: "getitem xs i = Inr x \<Longrightarrow> x \<in> set xs"
  by (auto simp: getitem_def split: if_splits)

lemma reshape_v_vbase: "reshape_v v ns = Inr v' \<Longrightarrow> vbase v' = vbase v"
  by (auto simp: reshape_v_def bind_e_Inr_iff)

lemma shape_deref: "shape (deref h v) = vshape v"
  by (simp add: deref_def)

lemma prefix_commute:
  "bind_e (getitem (pieces (form_of h0 self)) i) (\<lambda>p.
     bind_e (getitem (order (form_of h0 self)) i) (\<lambda>ordr.
     bind_e (reshape_F (deref h yi) [nd * p, ordr]) (\<lambda>c'.
     bind_e (getitem (breaks (form_of h0 self)) i) (\<lambda>b.
     bind_e (getitem (map (deref h0) xi) i) (\<lambda>x. K c' b x)))))
   = bind_e (bind_e (getitem (pieces_h self) i) (\<lambda>p.
        bind_e (getitem (order_h self) i) (\<lambda>ordr.
        bind_e (reshape_v yi [nd * p, ordr]) (\<lambda>coeffs'.
        bind_e (getitem (breaks_h self) i) (\<lambda>b.
        bind_e (getitem xi i) (\<lambda>x. Inr (coeffs', b, x)))))))
      (\<lambda>(c, b, x). K (deref h c) (deref h0 b) (deref h0 x))"
  by (simp add: form_of_def getitem_map bind_e_map_sum bind_e_assoc
      deref_reshape_v [symmetric])

lemma suffix_commute:
  "bind_e (getitem nsize i) (\<lambda>m.
     bind_e (reshape_F (deref h y) (pre @ [m])) (\<lambda>yi2.
     bind_e (transpose_nd yi2 axes) (\<lambda>yi3. K yi3)))
   = bind_e (bind_e (getitem nsize i) (\<lambda>m.
        bind_e (reshape_v y (pre @ [m])) (\<lambda>yi2. transpose_v yi2 axes)))
      (\<lambda>yi3. K (deref h yi3))"
  by (simp add: bind_e_map_sum bind_e_assoc deref_reshape_v [symmetric]
      deref_transpose_v [symmetric])

lemma transpose_v_vbase: "transpose_v v axes = Inr v' \<Longrightarrow> vbase v' = vbase v"
  by (auto simp: transpose_v_def split: if_splits)

lemma evaluate_loop_h_refines:
  assumes fr: "evaluator_frame ev_h ev"
    and ab: "list_all (\<lambda>v. vbase v < n0) (breaks_h self)"
    and ax: "list_all (\<lambda>v. vbase v < n0) xi"
  shows "n0 \<le> vbase yi \<Longrightarrow> vbase yi < length h \<Longrightarrow> \<forall>a<n0. h ! a = h0 ! a \<Longrightarrow>
     evaluate_loop_h ev_h self xi nsize axes (h, yi, sizey) = (h', r) \<Longrightarrow>
       length h \<le> length h' \<and> (\<forall>a<n0. h' ! a = h0 ! a) \<and>
       map_sum id (\<lambda>(y, s). (deref h' y, s)) r
         = evaluate_loop ev (form_of h0 self) (map (deref h0) xi) nsize axes (deref h yi, sizey)"
proof (induction axes arbitrary: h yi sizey)
  case Nil
  from Nil.prems(4) have "h' = h" "r = Inr (yi, sizey)" by simp_all
  with Nil.prems(3) show ?case by simp
next
  case (Cons i axes)
  let ?F = "form_of h0 self" and ?X = "map (deref h0) xi"
  let ?nd = "prod_list (take (ndim_h self) sizey)"
  let ?ax = "0 # ndim_h self # [1..<ndim_h self]"
  let ?P = "bind_e (getitem (pieces_h self) i) (\<lambda>p.
        bind_e (getitem (order_h self) i) (\<lambda>ordr.
        bind_e (reshape_v yi [?nd * p, ordr]) (\<lambda>coeffs'.
        bind_e (getitem (breaks_h self) i) (\<lambda>b.
        bind_e (getitem xi i) (\<lambda>x. Inr (coeffs', b, x))))))"
  have nF: "ndim ?F = ndim_h self" by (simp add: form_of_def)
  have val: "evaluate_loop ev ?F ?X nsize (i # axes) (deref h yi, sizey)
      = bind_e ?P (\<lambda>(c, b, x).
          bind_e (ev (deref h0 b) (deref h c) ?nd [?nd, vsize x] (deref h0 x)) (\<lambda>yi1.
          bind_e (getitem nsize i) (\<lambda>m.
          bind_e (reshape_F yi1 (take (ndim_h self) sizey @ [m])) (\<lambda>yi2.
          bind_e (transpose_nd yi2 ?ax) (\<lambda>yi3.
            evaluate_loop ev ?F ?X nsize axes (yi3, shape yi3))))))"
    by (simp only: evaluate_loop.simps Let_def nF prefix_commute asize_deref)
  show ?case
  proof (cases ?P)
    case (Inl e)
    with Cons.prems(4) have "h' = h" "r = Inl e" by (simp_all add: Let_def)
    with Cons.prems(3) Inl show ?thesis unfolding val by simp
  next
    case (Inr t)
    obtain c b x where t: "t = (c, b, x)" by (cases t)
    from Inr t have P: "?P = Inr (c, b, x)" by simp
    then obtain p ordr where c: "reshape_v yi [?nd * p, ordr] = Inr c"
      and b: "getitem (breaks_h self) i = Inr b" and x: "getitem xi i = Inr x"
      by (auto simp: bind_e_Inr_iff)
    from c have bc: "vbase c = vbase yi" by (rule reshape_v_vbase)
    from b ab have ab': "vbase b < n0"
      by (auto simp: list_all_iff dest: getitem_set)
    from x ax have ax': "vbase x < n0"
      by (auto simp: list_all_iff dest: getitem_set)
    obtain h1 r1 where run1: "ev_h h b c ?nd [?nd, vsize x] x = (h1, r1)"
      by (cases "ev_h h b c ?nd [?nd, vsize x] x")
    from Cons.prems(1,2) bc have ic: "n0 \<le> vbase c" "vbase c < length h" by simp_all
    note fs = frame_step [OF fr ab' ax' ic Cons.prems(3) run1]
    have val1: "evaluate_loop ev ?F ?X nsize (i # axes) (deref h yi, sizey)
      = bind_e (map_sum id (deref h1) r1) (\<lambda>yi1.
          bind_e (getitem nsize i) (\<lambda>m.
          bind_e (reshape_F yi1 (take (ndim_h self) sizey @ [m])) (\<lambda>yi2.
          bind_e (transpose_nd yi2 ?ax) (\<lambda>yi3.
            evaluate_loop ev ?F ?X nsize axes (yi3, shape yi3)))))"
      by (simp only: val P bind_e.simps prod.case fs(3))
    show ?thesis
    proof (cases r1)
      case (Inl e)
      with Cons.prems(4) P run1 have "h' = h1" "r = Inl e" by (simp_all add: Let_def)
      with fs(1,2) Inl show ?thesis unfolding val1 by simp
    next
      case (Inr yi1)
      let ?S = "bind_e (getitem nsize i) (\<lambda>m.
                  bind_e (reshape_v yi1 (take (ndim_h self) sizey @ [m])) (\<lambda>yi2.
                    transpose_v yi2 ?ax))"
      from fs(4) [OF Inr] have f1: "n0 \<le> vbase yi1" "vbase yi1 < length h1" by simp_all
      have val2: "evaluate_loop ev ?F ?X nsize (i # axes) (deref h yi, sizey)
        = bind_e ?S (\<lambda>yi3. evaluate_loop ev ?F ?X nsize axes (deref h1 yi3, vshape yi3))"
        by (simp only: val1 Inr map_sum.simps id_apply bind_e.simps suffix_commute shape_deref)
      show ?thesis
      proof (cases ?S)
        case (Inl e)
        with Cons.prems(4) P run1 Inr have "h' = h1" "r = Inl e"
          by (simp_all add: Let_def)
        with fs(1,2) Inl show ?thesis unfolding val2 by simp
      next
        case S: (Inr yi3)
        then obtain m yi2 where "reshape_v yi1 (take (ndim_h self) sizey @ [m]) = Inr yi2"
          and "transpose_v yi2 ?ax = Inr yi3"
          by (auto simp: bind_e_Inr_iff)
        then have "vbase yi3 = vbase yi1"
          by (simp add: reshape_v_vbase transpose_v_vbase)
        with f1 have f3: "n0 \<le> vbase yi3" "vbase yi3 < length h1" by simp_all
        from Cons.prems(4) P run1 Inr S
        have run': "evaluate_loop_h ev_h self xi nsize axes (h1, yi3, vshape yi3) = (h', r)"
          by (simp add: Let_def)
        from Cons.IH [OF f3 fs(2) run'] fs(1) S show ?thesis
          unfolding val2 by simp
      qed
    qed
  qed
qed

lemma copy_v_deref:
  "copy_v h v = (h1, yi) \<Longrightarrow>
     h1 = h @ [data (deref h v)] \<and> vbase yi = length h \<and> vshape yi = vshape v \<and>
     deref h1 yi = deref h v"
  by (auto simp: copy_v_def deref_def)

lemma evaluate_h_refines:
  assumes fr: "evaluator_frame ev_h ev"
    and ab: "list_all (\<lambda>v. vbase v < length h) (breaks_h self)"
    and ax: "list_all (\<lambda>v. vbase v < length h) xi"
    and run: "evaluate_h ev_h h self xi = (h', r)"
  shows "length h \<le> length h'" and "\<forall>a<length h. h' ! a = h ! a"
    and "map_sum id (deref h') r = fst (evaluate ev (form_of h self) (map (deref h) xi))"
proof -
  obtain h1 yi where cp: "copy_v h (coeffs_h self) = (h1, yi)"
    by (cases "copy_v h (coeffs_h self)")
  note c = copy_v_deref [OF cp]
  from c have i1: "length h \<le> vbase yi" "vbase yi < length h1"
    and i2: "\<forall>a<length h. h1 ! a = h ! a" and l1: "length h \<le> length h1"
    by (simp_all add: nth_append)
  let ?nsize = "map vsize xi"
  obtain h2 r2 where
    lp: "evaluate_loop_h ev_h self xi ?nsize (rev [0..<ndim_h self]) (h1, yi, vshape yi) = (h2, r2)"
    by (cases "evaluate_loop_h ev_h self xi ?nsize (rev [0..<ndim_h self]) (h1, yi, vshape yi)")
  from evaluate_loop_h_refines [OF fr ab ax i1 i2 lp]
  have l2: "length h1 \<le> length h2" and i3: "\<forall>a<length h. h2 ! a = h ! a"
    and ref: "map_sum id (\<lambda>(y, s). (deref h2 y, s)) r2
         = evaluate_loop ev (form_of h self) (map (deref h) xi) ?nsize (rev [0..<ndim_h self])
             (deref h1 yi, vshape yi)"
    by blast+
  have sizes: "map asize (map (deref h) xi) = ?nsize"
    by (simp add: asize_deref comp_def)
  from c have d: "deref h1 yi = deref h (coeffs_h self)" by (elim conjE)
  from c have vs: "vshape yi = vshape (coeffs_h self)" by (elim conjE)
  have cf: "coeffs (form_of h self) = deref h1 yi" "shape (deref h1 yi) = vshape yi"
    "ndim (form_of h self) = ndim_h self"
    by (simp_all add: form_of_def shape_deref d vs)
  have val: "fst (evaluate ev (form_of h self) (map (deref h) xi))
      = bind_e (map_sum id (\<lambda>(y, s). (deref h2 y, s)) r2) (\<lambda>(yi', sizey'). reshape_F yi' ?nsize)"
    by (simp only: evaluate_def Let_def fst_conv sizes cf ref)
  from run cp lp have h': "h' = h2"
    by (auto simp: evaluate_h_def Let_def split: sum.splits prod.splits)
  with l1 l2 show "length h \<le> length h'" by simp
  from h' i3 show "\<forall>a<length h. h' ! a = h ! a" by simp
  show "map_sum id (deref h') r = fst (evaluate ev (form_of h self) (map (deref h) xi))"
  proof (cases r2)
    case (Inl e)
    with run cp lp have "r = Inl e" by (simp add: evaluate_h_def Let_def)
    with Inl show ?thesis unfolding val by simp
  next
    case (Inr t)
    obtain yi' s' where t: "t = (yi', s')" by (cases t)
    with run cp lp Inr have "r = reshape_v yi' ?nsize" by (simp add: evaluate_h_def Let_def)
    with Inr t h' show ?thesis unfolding val by (simp add: deref_reshape_v)
  qed
qed

lemma form_of_same:
  assumes "\<forall>a<n. h' ! a = h ! a" "vbase (coeffs_h self) < n"
    "list_all (\<lambda>v. vbase v < n) (breaks_h self)"
  shows "form_of h' self = form_of h self"
proof -
  from assms(1,2) have "deref h' (coeffs_h self) = deref h (coeffs_h self)"
    by (intro deref_same) blast
  moreover have "map (deref h') (breaks_h self) = map (deref h) (breaks_h self)"
  proof (rule map_cong [OF refl])
    fix v assume "v \<in> set (breaks_h self)"
    with assms(3) have "vbase v < n" by (simp add: list_all_iff)
    with assms(1) show "deref h' v = deref h v" by (intro deref_same) blast
  qed
  ultimately show ?thesis by (simp add: form_of_def)
qed

lemma views_same:
  assumes "\<forall>a<n. h' ! a = h ! a" "list_all (\<lambda>v. vbase v < n) xi"
  shows "map (deref h') xi = map (deref h) xi"
proof (rule map_cong [OF refl])
  fix v assume "v \<in> set xi"
  with assms(2) have "vbase v < n" by (simp add: list_all_iff)
  with assms(1) show "deref h' v = deref h v" by (intro deref_same) blast
qed

lemma list_all_less_mono:
  "list_all (\<lambda>v. vbase v < n) vs \<Longrightarrow> n \<le> m \<Longrightarrow> list_all (\<lambda>v. vbase v < (m::nat)) vs"
  by (auto simp: list_all_iff)

lemma evaluator_frame_stub: "evaluator_frame stub_evaluate_h stub_evaluate"
  unfolding evaluator_frame_def
proof (intro allI impI)
  fix h :: heap and b c x :: view and n :: int and sh :: "int list"
  assume "vbase b < length h \<and> vbase c < length h \<and> vbase x < length h"
  obtain a where a: "stub_evaluate (deref h b) (deref h c) n sh (deref h x) = Inr a"
    by (simp add: stub_evaluate_def)
  have "deref (h[vbase c := map (\<lambda>f. NaN) (h ! vbase c)] @ [data a])
          \<lparr>vbase = length h, vshape = shape a, arrange = (\<lambda>b. b)\<rparr> = a"
    by (simp add: deref_def nth_append)
  then show "case stub_evaluate_h h b c n sh x of
             (h', r) \<Rightarrow>
               length h \<le> length h' \<and>
               (\<forall>a<length h. a \<noteq> vbase c \<longrightarrow> h' ! a = h ! a) \<and>
               map_sum id (deref h') r
                 = stub_evaluate (deref h b) (deref h c) n sh (deref h x) \<and>
               (case r of Inl e \<Rightarrow> True
                | Inr v \<Rightarrow> length h \<le> vbase v \<and> vbase v < length h')"
    by (simp add: stub_evaluate_h_def a nth_append)
qed

text \<open>
  C8. Let the 1-D evaluator meet its contract in memory, and let the arrays of the form
  and of the query be allocated. A call of \<open>evaluate\<close> leaves every buffer that existed
  before the call as it was, so that the form has the \<open>breaks\<close>, \<open>coeffs\<close>, \<open>pieces\<close>
  and \<open>order\<close> it had; and a second call with the same query, in the memory the first
  call left, returns a tensor with the same shape and entries (or raises the same
  exception). The 1-D evaluator may overwrite the coefficients it is handed: they are
  views of the copy \<open>evaluate\<close> made.
\<close>

theorem evaluate_h_pure:
  assumes "evaluator_frame ev_h ev"
    and "vbase (coeffs_h self) < length h"
    and "list_all (\<lambda>v. vbase v < length h) (breaks_h self)"
    and "list_all (\<lambda>v. vbase v < length h) xi"
  shows "(\<forall>a<length h. fst (evaluate_h ev_h h self xi) ! a = h ! a) \<and>
         form_of (fst (evaluate_h ev_h h self xi)) self = form_of h self \<and>
         map_sum id (deref (fst (evaluate_h ev_h (fst (evaluate_h ev_h h self xi)) self xi)))
           (snd (evaluate_h ev_h (fst (evaluate_h ev_h h self xi)) self xi))
           = map_sum id (deref (fst (evaluate_h ev_h h self xi)))
               (snd (evaluate_h ev_h h self xi))"
proof -
  obtain h' r where e1: "evaluate_h ev_h h self xi = (h', r)"
    by (cases "evaluate_h ev_h h self xi")
  obtain h'' r' where e2: "evaluate_h ev_h h' self xi = (h'', r')"
    by (cases "evaluate_h ev_h h' self xi")
  note r1 = evaluate_h_refines [OF assms(1,3,4) e1]
  have same: "form_of h' self = form_of h self"
    using r1(2) assms(2,3) by (rule form_of_same)
  have q: "map (deref h') xi = map (deref h) xi"
    using r1(2) assms(4) by (rule views_same)
  have ab: "list_all (\<lambda>v. vbase v < length h') (breaks_h self)"
    using assms(3) r1(1) by (rule list_all_less_mono)
  have ax: "list_all (\<lambda>v. vbase v < length h') xi"
    using assms(4) r1(1) by (rule list_all_less_mono)
  note r2 = evaluate_h_refines [OF assms(1) ab ax e2]
  from r2(3) r1(3) have "map_sum id (deref h'') r' = map_sum id (deref h') r"
    by (simp only: same q)
  with r1(2) same show ?thesis by (simp add: e1 e2)
qed

lemma mem_alloc:
  "vbase (coeffs_h mem_form) < length mem_heap"
  "list_all (\<lambda>v. vbase v < length mem_heap) (breaks_h mem_form)"
  "list_all (\<lambda>v. vbase v < length mem_heap) mem_query"
  by (simp_all add: mem_form_def mem_heap_def mem_query_def)

lemma mem_first_heap:
  "fst (evaluate_h stub_evaluate_h mem_heap mem_form mem_query)
     = mem_heap @ [[NaN, NaN], [Finite 5, Finite 5]]"
  by code_simp

lemma mem_first_result:
  "map_sum id (deref (fst (evaluate_h stub_evaluate_h mem_heap mem_form mem_query)))
     (snd (evaluate_h stub_evaluate_h mem_heap mem_form mem_query))
     = Inr \<lparr>shape = [2], data = [Finite 5, Finite 5]\<rparr>"
  by code_simp

theorem evaluate_h_pure_witness:
  "evaluator_frame stub_evaluate_h stub_evaluate \<and>
   vbase (coeffs_h mem_form) < length mem_heap \<and>
   list_all (\<lambda>v. vbase v < length mem_heap) (breaks_h mem_form) \<and>
   list_all (\<lambda>v. vbase v < length mem_heap) mem_query \<and>
   fst (evaluate_h stub_evaluate_h mem_heap mem_form mem_query)
     = mem_heap @ [[NaN, NaN], [Finite 5, Finite 5]] \<and>
   form_of (fst (evaluate_h stub_evaluate_h mem_heap mem_form mem_query)) mem_form
     = form_of mem_heap mem_form \<and>
   map_sum id (deref (fst (evaluate_h stub_evaluate_h mem_heap mem_form mem_query)))
     (snd (evaluate_h stub_evaluate_h mem_heap mem_form mem_query))
     = Inr \<lparr>shape = [2], data = [Finite 5, Finite 5]\<rparr> \<and>
   map_sum id
     (deref (fst (evaluate_h stub_evaluate_h
        (fst (evaluate_h stub_evaluate_h mem_heap mem_form mem_query)) mem_form mem_query)))
     (snd (evaluate_h stub_evaluate_h
        (fst (evaluate_h stub_evaluate_h mem_heap mem_form mem_query)) mem_form mem_query))
     = Inr \<lparr>shape = [2], data = [Finite 5, Finite 5]\<rparr>"
  using evaluator_frame_stub mem_alloc mem_first_heap mem_first_result
    evaluate_h_pure [OF evaluator_frame_stub mem_alloc]
  by simp

section \<open>A single axis\<close>

lemma ravel_unravel_2d:
  assumes "j < a * b"
  shows "j mod a + a * ((j div a) mod b) = (j::nat)"
proof -
  from assms have "j div a < b"
    by (simp add: less_mult_imp_div_less mult.commute)
  then show ?thesis by simp
qed

lemma transpose_nd_identity_2d:
  assumes "wf_ndarray v" "shape v = [d0, d1]"
  shows "transpose_nd v (0 # 1 # [1..<1]) = Inr v"
proof -
  from assms have nn: "0 \<le> d0" "0 \<le> d1" and "int (length (data v)) = d0 * d1"
    by (simp_all add: wf_ndarray_def asize_def)
  then have len: "length (data v) = nat d0 * nat d1"
    by (metis nat_int nat_mult_distrib)
  have nd: "andim v = 2" by (simp add: andim_def assms(2))
  have upt2: "[0..<2] = [0, Suc 0]" by (simp add: numeral_2_eq_2)
  have idx: "index_of [0, Suc 0] 0 = 0" "index_of [0, Suc 0] (Suc 0) = Suc 0"
    by (simp_all add: index_of_def)
  have "map (\<lambda>j. data v ! ravel_F [d0, d1]
            (map (\<lambda>d. unravel_F [d0, d1] j ! index_of [0, Suc 0] d) [0, Suc 0]))
          [0..<nat d0 * nat d1] = data v"
  proof (rule nth_equalityI)
    show "length (map (\<lambda>j. data v ! ravel_F [d0, d1]
            (map (\<lambda>d. unravel_F [d0, d1] j ! index_of [0, Suc 0] d) [0, Suc 0]))
          [0..<nat d0 * nat d1]) = length (data v)"
      by (simp add: len)
  next
    fix j assume "j < length (map (\<lambda>j. data v ! ravel_F [d0, d1]
            (map (\<lambda>d. unravel_F [d0, d1] j ! index_of [0, Suc 0] d) [0, Suc 0]))
          [0..<nat d0 * nat d1])"
    then have j: "j < nat d0 * nat d1" by simp
    then show "map (\<lambda>j. data v ! ravel_F [d0, d1]
            (map (\<lambda>d. unravel_F [d0, d1] j ! index_of [0, Suc 0] d) [0, Suc 0]))
          [0..<nat d0 * nat d1] ! j = data v ! j"
      by (simp add: idx ravel_unravel_2d)
  qed
  moreover have "sort [0, Suc 0] = [0..<2]" by (simp add: upt2)
  ultimately have "transpose_nd v [0, Suc 0] = Inr \<lparr>shape = [d0, d1], data = data v\<rparr>"
    using nn by (simp add: transpose_nd_def nd upt2 assms(2) Let_def nat_mult_distrib)
  then show ?thesis using assms(2) by simp
qed


lemma ndarray_eta: "\<lparr>shape = shape (a::ndarray), data = data a\<rparr> = a"
  by simp

lemma make_spline_single_axis:
  assumes contract: "solver_contract fit"
    and x: "andim x = 1" "2 \<le> asize x"
    and yd: "wf_ndarray yd" "shape yd = [asize x]"
  shows "make_spline fit [x] yd [w] 1 [s] =
     bind_e (fit x \<lparr>shape = [1, asize x], data = data yd\<rparr> w s) (\<lambda>r.
       Inr (\<lparr>breaks = [x], coeffs = \<lparr>shape = [1, (asize x - 1) * order1 (spline1 r)],
                                     data = data (coeffs1 (spline1 r))\<rparr>,
             pieces = [asize x - 1], order = [order1 (spline1 r)], ndim = 1\<rparr>,
            [smooth1 r]))"
proof -
  let ?y0 = "\<lparr>shape = [1, asize x], data = data yd\<rparr>"
  have sz: "asize yd = asize x" by (simp add: asize_def yd(2))
  have nn: "list_all (\<lambda>d. 0 \<le> d) [1, asize x]" using x(2) by simp
  have r0: "reshape_F yd [1, asize x] = Inr ?y0"
    by (simp add: reshape_F_nonneg [OF nn] sz)
  have wf0: "wf_ndarray ?y0"
    using wf_reshape [OF yd(1) nn] sz by simp
  have r0': "reshape_F ?y0 [1, asize x] = Inr ?y0"
    by (simp add: reshape_F_nonneg [OF nn] asize_def [of ?y0])
  show ?thesis
  proof (cases "fit x ?y0 w s")
    case (Inl e)
    then show ?thesis
      by (simp add: make_spline_def yd(2) r0 r0' getitem_def Let_def)
  next
    case (Inr r)
    let ?c = "coeffs1 (spline1 r)" and ?o = "order1 (spline1 r)"
    from contract Inr x wf0 have p: "pieces1 (spline1 r) = asize x - 1" and o: "0 \<le> ?o"
      and wfc: "wf_ndarray ?c" and shc: "shape ?c = [1 * pieces1 (spline1 r), ?o]"
      unfolding solver_contract_def
      by (metis ndarray.select_convs(1))+
    have nn1: "list_all (\<lambda>d. 0 \<le> d) [1, (asize x - 1) * ?o]"
      using x(2) o by simp
    have "asize ?c = (asize x - 1) * ?o"
      by (simp add: asize_def shc p)
    then have r1: "reshape_F ?c [1, (asize x - 1) * ?o]
        = Inr \<lparr>shape = [1, (asize x - 1) * ?o], data = data ?c\<rparr>"
      by (simp add: reshape_F_nonneg [OF nn1])
    show ?thesis
      using x(2)
      by (simp add: make_spline_def yd(2) r0 r0' getitem_def Let_def Inr p r1
          NdGridSplinePPForm_init_def)
  qed
qed

lemma evaluate_single_axis:
  assumes ev: "evaluator_contract ev"
    and x: "andim x = 1" "2 \<le> asize x"
    and c: "wf_ndarray c" "shape c = [asize x - 1, ordr]"
    and q: "andim q = 1" "2 \<le> asize q"
  shows "\<exists>v. ev x c 1 [1, asize q] q = Inr v \<and>
     fst (evaluate ev \<lparr>breaks = [x], coeffs = \<lparr>shape = [1, (asize x - 1) * ordr], data = data c\<rparr>,
             pieces = [asize x - 1], order = [ordr], ndim = 1\<rparr> [q])
       = Inr \<lparr>shape = [asize q], data = data v\<rparr>"
proof -
  from c have o: "0 \<le> ordr" by (simp add: wf_ndarray_def)
  from ev x c q obtain v where v: "ev x c 1 [1, asize q] q = Inr v"
    and wfv: "wf_ndarray v" and shv: "shape v = [1, asize q]"
    unfolding evaluator_contract_def
    by (metis mult_1)
  have nn1: "list_all (\<lambda>d. 0 \<le> d) [asize x - 1, ordr]" using x(2) o by simp
  have r1: "reshape_F \<lparr>shape = [1, (asize x - 1) * ordr], data = data c\<rparr> [asize x - 1, ordr] = Inr c"
    using c(2)
    by (simp add: reshape_F_nonneg [OF nn1]
        asize_def [of "\<lparr>shape = [1, (asize x - 1) * ordr], data = data c\<rparr>"])
  have nn2: "list_all (\<lambda>d. 0 \<le> d) [1, asize q]" using q(2) by simp
  have r2: "reshape_F v [1, asize q] = Inr v"
    using shv by (simp add: reshape_F_nonneg [OF nn2] asize_def [of v])
  have t: "transpose_nd v [0, Suc 0] = Inr v"
    using transpose_nd_identity_2d [OF wfv shv] by simp
  have nn3: "list_all (\<lambda>d. 0 \<le> d) [asize q]" using q(2) by simp
  have r3: "reshape_F v [asize q] = Inr \<lparr>shape = [asize q], data = data v\<rparr>"
    by (simp add: reshape_F_nonneg [OF nn3] asize_def [of v] shv)
  have "fst (evaluate ev \<lparr>breaks = [x], coeffs = \<lparr>shape = [1, (asize x - 1) * ordr], data = data c\<rparr>,
             pieces = [asize x - 1], order = [ordr], ndim = 1\<rparr> [q])
       = Inr \<lparr>shape = [asize q], data = data v\<rparr>"
    using x(2) by (simp add: evaluate_def Let_def getitem_def r1 v r2 t shv r3)
  with v show ?thesis by blast
qed


text \<open>
  The engine on one axis and the standalone 1-D solver, compared on what
  \<open>_prepare_data\<close> hands to \<open>_make_spline\<close> for the axis: the sites \<open>x\<close>, the weights
  \<open>w\<close> and the smoothing parameter \<open>s\<close>. On these the two agree, exceptions included.
\<close>

lemma single_axis_matches_prepared:
  assumes "solver_contract fit" and "evaluator_contract ev" and "wf_ndarray yd"
    and "prepare_data xd yd ws sm = Inr ([x], yd, [w], [s])"
    and "ndgrid_prepare_data_sites xi = Inr [q]"
  shows "case standalone_1d fit ev x yd w s q of
           Inl e \<Rightarrow>
             bind_e (NdGridCubicSmoothingSpline_init fit xd yd ws sm)
               (\<lambda>obj. NdGridCubicSmoothingSpline_call ev obj xi) = Inl e
         | Inr v \<Rightarrow>
             bind_e (NdGridCubicSmoothingSpline_init fit xd yd ws sm)
               (\<lambda>obj. NdGridCubicSmoothingSpline_call ev obj xi)
               = Inr \<lparr>shape = [asize q], data = data v\<rparr>"
proof -
  note p = prepare_data_Inr [OF assms(4)]
  from ndgrid_prepare_data_sites_Inr [OF p(1)] have x: "andim x = 1" "2 \<le> asize x"
    by simp_all
  from ndgrid_prepare_data_sites_Inr [OF assms(5)] have q: "andim q = 1" "2 \<le> asize q"
    by simp_all
  have sh: "shape yd = [asize x]"
    using check_ydata_sizes_shape [OF _ _ p(4)] x(1) p(3) by (simp add: andim_def)
  let ?y0 = "\<lparr>shape = [1, asize x], data = data yd\<rparr>"
  have sz: "asize yd = asize x" by (simp add: asize_def sh)
  have nn: "list_all (\<lambda>d. 0 \<le> d) [1, asize x]" using x(2) by simp
  have r0: "reshape_F yd [1, asize x] = Inr ?y0"
    by (simp add: reshape_F_nonneg [OF nn] sz)
  have wf0: "wf_ndarray ?y0"
    using wf_reshape [OF assms(3) nn] sz by simp
  note mk = make_spline_single_axis [OF assms(1) x assms(3) sh, of w s]
  show ?thesis
  proof (cases "fit x ?y0 w s")
    case (Inl e)
    then show ?thesis
      using mk by (simp add: standalone_1d_def r0 NdGridCubicSmoothingSpline_init_def assms(4))
  next
    case (Inr r)
    let ?c = "coeffs1 (spline1 r)" and ?o = "order1 (spline1 r)"
    from assms(1) Inr x wf0 have b: "breaks1 (spline1 r) = x"
      and pc: "pieces1 (spline1 r) = asize x - 1"
      and wfc: "wf_ndarray ?c" and shc: "shape ?c = [1 * pieces1 (spline1 r), ?o]"
      unfolding solver_contract_def
      by (metis ndarray.select_convs(1))+
    from shc pc have shc': "shape ?c = [asize x - 1, ?o]" by simp
    from evaluate_single_axis [OF assms(2) x wfc shc' q] obtain v where
      v: "ev x ?c 1 [1, asize q] q = Inr v"
      and e: "fst (evaluate ev \<lparr>breaks = [x],
                 coeffs = \<lparr>shape = [1, (asize x - 1) * ?o], data = data ?c\<rparr>,
                 pieces = [asize x - 1], order = [?o], ndim = 1\<rparr> [q])
               = Inr \<lparr>shape = [asize q], data = data v\<rparr>"
      by blast
    have "standalone_1d fit ev x yd w s q = Inr v"
      by (simp add: standalone_1d_def r0 Inr b v)
    moreover have "bind_e (NdGridCubicSmoothingSpline_init fit xd yd ws sm)
               (\<lambda>obj. NdGridCubicSmoothingSpline_call ev obj xi)
               = Inr \<lparr>shape = [asize q], data = data v\<rparr>"
      using mk e
      by (simp add: NdGridCubicSmoothingSpline_init_def assms(4) Inr
          NdGridCubicSmoothingSpline_call_def assms(5))
    ultimately show ?thesis by simp
  qed
qed

lemma line_prepare:
  "prepare_data line_x line_y PyNone PyNone = Inr ([line_site], line_y, [None], [PyNone])"
  by code_simp

lemma line_query_sites: "ndgrid_prepare_data_sites line_query = Inr [line_query_site]"
  by code_simp

lemma wf_line_y: "wf_ndarray line_y"
  by (simp add: wf_ndarray_def line_y_def asize_def)

lemma line_standalone:
  "standalone_1d stub_fit stub_evaluate line_site line_y None PyNone line_query_site
     = Inr \<lparr>shape = [1, 2], data = [Finite 5, Finite 5]\<rparr>"
  by code_simp

text \<open>
  On the caller's own arguments the two agree when the smoothing parameter is omitted
  or is a scalar other than 0: the sites \<open>x\<close> are the vector of \<open>xdata\<close>, the weights
  are omitted or the vector of \<open>weights\<close>, and \<open>sm\<close> is the argument \<open>smooth\<close> itself.
\<close>

lemma single_axis_matches_standalone_caller:
  assumes "solver_contract fit" and "evaluator_contract ev" and "wf_ndarray yd"
    and "ndgrid_prepare_data_sites xd = Inr [x]" and "shape yd = [asize x]"
    and "ws = PyNone \<and> w = None \<or>
         (\<exists>w'. ndgrid_prepare_data_sites ws = Inr [w'] \<and> asize w' = asize x \<and> w = Some w')"
    and "sm = PyNone \<or> (\<exists>f. sm = PyFloat f \<and> f \<noteq> Finite 0)"
    and "ndgrid_prepare_data_sites xi = Inr [q]"
  shows "case standalone_1d fit ev x yd w sm q of
           Inl e \<Rightarrow>
             bind_e (NdGridCubicSmoothingSpline_init fit xd yd ws sm)
               (\<lambda>obj. NdGridCubicSmoothingSpline_call ev obj xi) = Inl e
         | Inr v \<Rightarrow>
             bind_e (NdGridCubicSmoothingSpline_init fit xd yd ws sm)
               (\<lambda>obj. NdGridCubicSmoothingSpline_call ev obj xi)
               = Inr \<lparr>shape = [asize q], data = data v\<rparr>"
proof -
  from ndgrid_prepare_data_sites_Inr [OF assms(4)] have x: "andim x = 1" by simp
  have yd: "andim yd = 1" by (simp add: andim_def assms(5))
  from x obtain d where d: "shape x = [d]"
    by (cases "shape x") (auto simp: andim_def)
  then have ax: "asize x = d" by (simp add: asize_def)
  have cy: "check_ydata_sizes (shape yd) [x] = Inr ()"
    by (simp add: assms(5) alen_def d ax)
  have pw: "py_not ws = Inr True \<and> w = None \<or>
      py_not ws = Inr False \<and>
        (\<exists>w'. ndgrid_prepare_data_sites ws = Inr [w'] \<and> asize w' = asize x \<and> w = Some w')"
    using assms(6)
  proof
    assume "ws = PyNone \<and> w = None"
    then show ?thesis by simp
  next
    assume a: "\<exists>w'. ndgrid_prepare_data_sites ws = Inr [w'] \<and> asize w' = asize x \<and> w = Some w'"
    then have "py_not ws = Inr False"
      by (cases ws) (auto simp: ndgrid_prepare_data_sites_def)
    with a show ?thesis by simp
  qed
  have ps: "py_not sm = Inr True \<and> sm = PyNone \<or>
      py_not sm = Inr False \<and> \<not> is_sequence sm \<and> (\<exists>f. py_float sm = Inr f \<and> sm = PyFloat f)"
    using assms(7) by auto
  have "prepare_data xd yd ws sm = Inr ([x], yd, [w], [sm])"
    using pw ps by (auto simp: prepare_data_def assms(4) yd cy Let_def)
  from single_axis_matches_prepared [OF assms(1,2,3) this assms(8)] show ?thesis .
qed

lemma solver_contract_shrink: "solver_contract shrink_fit"
  unfolding solver_contract_def
proof (intro allI impI, elim conjE)
  fix x y :: ndarray and w :: "ndarray option" and s :: pyobj
    and r :: CubicSmoothingSpline and rows :: int
  assume f: "shrink_fit x y w s = Inr r" and x: "andim x = 1" "2 \<le> asize x"
    and wf: "wf_ndarray y" and sh: "shape y = [rows, asize x]"
  from wf sh have len: "int (length (data y)) = rows * asize x" and r0: "0 \<le> rows"
    by (simp_all add: wf_ndarray_def asize_def)
  from r0 x(2) have nn: "0 \<le> rows * (asize x - 1)" by simp
  have "rows * (asize x - 1) \<le> rows * asize x"
    using r0 by (simp add: mult_left_mono)
  with len nn have "min (length (data y)) (nat (rows * (asize x - 1))) = nat (rows * (asize x - 1))"
    by linarith
  with f sh nn x(2) show "breaks1 (spline1 r) = x \<and>
          pieces1 (spline1 r) = asize x - 1 \<and>
          0 \<le> order1 (spline1 r) \<and>
          wf_ndarray (coeffs1 (spline1 r)) \<and>
          shape (coeffs1 (spline1 r)) = [rows * pieces1 (spline1 r), order1 (spline1 r)]"
    by (auto simp: shrink_fit_def Let_def wf_ndarray_def asize_def)
qed

text \<open>
  C9. For an input of one axis, the engine and the standalone 1-D solver do not agree
  on the same sites, values, weights and smoothing parameter when that parameter is
  the scalar \<open>0.0\<close>. With the stand-ins \<open>shrink_fit\<close> and \<open>stub_evaluate\<close>, which meet
  the contracts (\<open>solver_contract_shrink\<close>, \<open>evaluator_contract_stub\<close>), on the
  sites \<open>[0, 1, 2]\<close>, the values \<open>[5, 7, 6]\<close>, no weights and the query \<open>[0.5, 1.5]\<close>:
  the engine fits the axis with automatic selection (\<open>_prepare_data\<close> replaces the
  falsy \<open>0.0\<close> by \<open>None\<close>) and returns \<open>[2.5, 2.5]\<close>; the standalone solver fitted with
  \<open>smooth = 0.0\<close> returns \<open>[[0, 0]]\<close>.
\<close>

theorem single_axis_scalar_zero_differs:
  "bind_e (NdGridCubicSmoothingSpline_init shrink_fit line_x line_y PyNone (PyFloat (Finite 0)))
     (\<lambda>obj. NdGridCubicSmoothingSpline_call stub_evaluate obj line_query)
     = Inr \<lparr>shape = [2], data = [Finite (5 / 2), Finite (5 / 2)]\<rparr> \<and>
   standalone_1d shrink_fit stub_evaluate line_site line_y None (PyFloat (Finite 0))
     line_query_site
     = Inr \<lparr>shape = [1, 2], data = [Finite 0, Finite 0]\<rparr>"
proof (intro conjI)
  show "bind_e (NdGridCubicSmoothingSpline_init shrink_fit line_x line_y PyNone (PyFloat (Finite 0)))
     (\<lambda>obj. NdGridCubicSmoothingSpline_call stub_evaluate obj line_query)
     = Inr \<lparr>shape = [2], data = [Finite (5 / 2), Finite (5 / 2)]\<rparr>"
    by code_simp
  show "standalone_1d shrink_fit stub_evaluate line_site line_y None (PyFloat (Finite 0))
     line_query_site
     = Inr \<lparr>shape = [1, 2], data = [Finite 0, Finite 0]\<rparr>"
    by code_simp
qed

end
